theory Spec2Isabelle
  imports Main "HOL-Library.Word"
begin

unbundle bit_operations_syntax

section \<open>Addresses\<close>

text \<open>
  A Go \<open>net.IP\<close>, \<open>net.IPMask\<close> or \<open>net.HardwareAddr\<close> is a byte slice.
\<close>

type_synonym byte = "8 word"
type_synonym IP = "byte list"
type_synonym IPMask = "byte list"
type_synonym HardwareAddr = "byte list"

section \<open>main.go: expand\<close>

text \<open>
  \<^verbatim>\<open>
  func expand(ip net.IP) {
      for j := len(ip) - 1; j >= 0; j-- {
          ip[j]++
          if ip[j] > 0 { break }
      }
  }
  \<close>
  The loop counter of the model is \<open>j + 1\<close>, so that \<open>0\<close> is the exit \<open>j < 0\<close>. The slice
  is mutated in place; the model returns the new contents. The index is always in range,
  because the loop starts at \<open>len(ip) - 1\<close> and only counts down.
\<close>

fun expand_from :: "nat \<Rightarrow> IP \<Rightarrow> IP" where
  "expand_from 0 ip = ip"
| "expand_from (Suc j) ip =
     (let ip' = ip[j := ip ! j + 1]
      in if ip' ! j > 0 then ip' else expand_from j ip')"

definition expand :: "IP \<Rightarrow> IP" where
  "expand ip = expand_from (length ip) ip"

text \<open>The bytes read as one big-endian base-256 number.\<close>

definition be_val :: "byte list \<Rightarrow> nat" where
  "be_val bs = foldl (\<lambda>a b. a * 256 + unat b) 0 bs"

section \<open>Library types used by scanner.go\<close>

text \<open>
  \<open>time.Time\<close> readings of the monotonic clock and \<open>time.Duration\<close> are counted in
  nanoseconds.
\<close>

type_synonym Time = int

definition Second :: int where
  "Second = 1000000000"

text \<open>
  Go error values. \<open>NoArpReply\<close> is the value built by
  \<open>errors.New("No ARP reply within 3 seconds")\<close>; \<open>NextErrorTimeoutExpired\<close> is the pcap
  sentinel the loops compare against with \<open>==\<close>; \<open>EOF\<close> is \<open>io.EOF\<close>.
\<close>

datatype error = NoArpReply | NextErrorTimeoutExpired | EOF | OtherError string

text \<open>The fields of the gopacket layers that scanner.go sets or reads.\<close>

record Ethernet =
  SrcMAC :: HardwareAddr
  DstMAC :: HardwareAddr
  EthernetType :: "16 word"

record ARP =
  AddrType :: "16 word"
  Protocol :: "16 word"
  HwAddressSize :: byte
  ProtAddressSize :: byte
  Operation :: "16 word"
  SourceHwAddress :: "byte list"
  SourceProtAddress :: "byte list"
  DstHwAddress :: "byte list"
  DstProtAddress :: "byte list"

record IPv4 =
  SrcIP :: IP
  DstIP :: IP
  Version :: byte
  TTL :: byte
  IPProtocol :: byte

record TCP =
  SrcPort :: "16 word"
  DstPort :: "16 word"
  SYN :: bool
  ACK :: bool

definition LinkTypeEthernet :: "16 word" where
  "LinkTypeEthernet = 1"

definition EthernetTypeIPv4 :: "16 word" where
  "EthernetTypeIPv4 = 0x0800"

definition EthernetTypeARP :: "16 word" where
  "EthernetTypeARP = 0x0806"

definition ARPRequest :: "16 word" where
  "ARPRequest = 1"

definition IPProtocolTCP :: byte where
  "IPProtocolTCP = 6"

datatype SerializableLayer =
  EthernetLayer Ethernet | ARPLayer ARP | IPv4Layer IPv4 | TCPLayer TCP

text \<open>
  \<open>gopacket.Flow\<close>: an endpoint type and two endpoints. Go compares flows with \<open>==\<close> on
  the struct (type, both lengths, both zero-padded byte arrays), which is equality of the
  type and of the two byte sequences.
\<close>

datatype EndpointType = EndpointIPv4 | EndpointIPv6

record Flow =
  endpointType :: EndpointType
  src :: "byte list"
  dst :: "byte list"

definition NewFlow :: "EndpointType \<Rightarrow> byte list \<Rightarrow> byte list \<Rightarrow> Flow" where
  "NewFlow t s d = \<lparr>endpointType = t, src = s, dst = d\<rparr>"

text \<open>
  A captured frame as \<open>gopacket.NewPacket\<close> decodes it: \<open>netLayer\<close> is the flow reported by
  \<open>packet.NetworkLayer().NetworkFlow()\<close> (\<open>None\<close> when there is no network layer),
  \<open>tcpLayer\<close> is \<open>packet.Layer(layers.LayerTypeTCP)\<close>, \<open>arpLayer\<close> is
  \<open>packet.Layer(layers.LayerTypeARP)\<close>. A frame that does not decode has none of them.
\<close>

record Packet =
  netLayer :: "Flow option"
  tcpLayer :: "TCP option"
  arpLayer :: "ARP option"

text \<open>
  \<open>net.IP.Equal\<close>: equal byte sequences, or a 4-byte address and its 16-byte
  IPv4-in-IPv6 form.
\<close>

definition v4InV6Prefix :: "byte list" where
  "v4InV6Prefix = [0, 0, 0, 0, 0, 0, 0, 0, 0, 0, 0xff, 0xff]"

definition IP_Equal :: "IP \<Rightarrow> IP \<Rightarrow> bool" where
  "IP_Equal ip x =
     (if length ip = length x then ip = x
      else if length ip = 4 \<and> length x = 16 then take 12 x = v4InV6Prefix \<and> ip = drop 12 x
      else if length ip = 16 \<and> length x = 4 then take 12 ip = v4InV6Prefix \<and> drop 12 ip = x
      else False)"

text \<open>
  Decimal rendering of a number (\<open>%d\<close>), and \<open>net.IP.String\<close> for the 4-byte addresses
  that main.go scans (dotted decimal); a nil address prints as \<open><nil>\<close>.
\<close>

function dec :: "nat \<Rightarrow> string" where
  "dec n = (if n < 10 then [''0123456789'' ! n]
            else dec (n div 10) @ [''0123456789'' ! (n mod 10)])"
  by pat_completeness auto
termination
  by (relation "measure id") auto

declare dec.simps [simp del]

fun dotted :: "byte list \<Rightarrow> string" where
  "dotted [] = []"
| "dotted [b] = dec (unat b)"
| "dotted (b # bs) = dec (unat b) @ ''.'' @ dotted bs"

definition IP_String :: "IP \<Rightarrow> string" where
  "IP_String ip = (if ip = [] then ''<nil>'' else dotted ip)"

section \<open>scanner.go: the scanner, its capture handle and its output\<close>

record NetInterface =
  Name :: string
  HardwareAddr :: HardwareAddr

text \<open>\<open>Gateway\<close> is \<open>None\<close> for Go's nil slice.\<close>

record SSHScanner =
  Interface :: NetInterface
  DestIP :: IP
  Gateway :: "IP option"
  SourceIP :: IP

text \<open>
  One call of \<open>fmt.Printf\<close> is recorded as its format string and its arguments.
\<close>

datatype arg = AString string | AUint16 "16 word" | ATCPPort "16 word" | AError error | AIP IP

type_synonym Printf = "string \<times> arg list"

text \<open>
  What a scan does to the outside: the lines printed to standard output, the frames handed
  to \<open>PCAPHandle.WritePacketData\<close> (each with the error the call returned), how many pcap
  handles were opened and how often \<open>PCAPHandle.Close\<close> ran, and main's counter \<open>wait\<close>.
\<close>

record world =
  stdout :: "Printf list"
  written :: "(SerializableLayer list \<times> error option) list"
  opened :: nat
  closed :: nat
  wait :: int

text \<open>
  What the outside does to a scan. A call of \<open>SendPacket\<close> fails in
  \<open>gopacket.SerializeLayers\<close>, fails in \<open>WritePacketData\<close>, or succeeds.
\<close>

datatype send_result = SerializeFails error | WriteFails error | WriteOk

text \<open>
  \<^verbatim>\<open>
  func (sshScanner *SSHScanner) SendPacket(l ...gopacket.SerializableLayer) error {
      if err := gopacket.SerializeLayers(sshScanner.Buffer, sshScanner.Options, l...); err != nil {
          return err
      }
      return sshScanner.PCAPHandle.WritePacketData(sshScanner.Buffer.Bytes())
  }
  \<close>
\<close>

definition SendPacket ::
  "send_result \<Rightarrow> SerializableLayer list \<Rightarrow> world \<Rightarrow> error option \<times> world" where
  "SendPacket r l w =
     (case r of
        SerializeFails err \<Rightarrow> (Some err, w)
      | WriteFails err \<Rightarrow> (Some err, w\<lparr>written := written w @ [(l, Some err)]\<rparr>)
      | WriteOk \<Rightarrow> (None, w\<lparr>written := written w @ [(l, None)]\<rparr>))"

definition Close :: "world \<Rightarrow> world" where
  "Close w = w\<lparr>closed := closed w + 1\<rparr>"

section \<open>scanner.go: DestMACAddress\<close>

text \<open>
  One iteration of the receive loop sees the clock reading of \<open>time.Since(start)\<close> and,
  when the deadline has not passed, the result \<open>(data, err)\<close> of \<open>ReadPacketData\<close>:
  \<open>Inl err\<close> or \<open>Inr\<close> the decoded frame. The loop is run against the list of what its
  iterations see; \<open>None\<close> means that the loop is still running when the list ends. The
  iterations that were not reached are returned.
\<close>

type_synonym arp_tick = "Time \<times> (error + Packet)"

fun arp_wait ::
  "IP \<Rightarrow> Time \<Rightarrow> arp_tick list \<Rightarrow> ((error + HardwareAddr) \<times> arp_tick list) option" where
  "arp_wait arpDst start [] = None"
| "arp_wait arpDst start ((now, r) # rest) =
     (if now - start > Second * 3 then Some (Inl NoArpReply, rest)
      else case r of
        Inl err \<Rightarrow>
          if err = NextErrorTimeoutExpired then arp_wait arpDst start rest
          else Some (Inl err, rest)
      | Inr packet \<Rightarrow>
          (case arpLayer packet of
             Some arp \<Rightarrow>
               if IP_Equal (SourceProtAddress arp) arpDst
               then Some (Inr (SourceHwAddress arp), rest)
               else arp_wait arpDst start rest
           | None \<Rightarrow> arp_wait arpDst start rest))"

text \<open>The request of lines 44 to 60.\<close>

definition arp_request :: "SSHScanner \<Rightarrow> IP \<Rightarrow> SerializableLayer list" where
  "arp_request s arpDst =
     [EthernetLayer \<lparr>SrcMAC = HardwareAddr (Interface s),
                     DstMAC = [0xff, 0xff, 0xff, 0xff, 0xff, 0xff],
                     EthernetType = EthernetTypeARP\<rparr>,
      ARPLayer \<lparr>AddrType = LinkTypeEthernet,
                Protocol = EthernetTypeIPv4,
                HwAddressSize = 6,
                ProtAddressSize = 4,
                Operation = ARPRequest,
                SourceHwAddress = HardwareAddr (Interface s),
                SourceProtAddress = SourceIP s,
                DstHwAddress = [0, 0, 0, 0, 0, 0],
                DstProtAddress = arpDst\<rparr>]"

text \<open>
  \<open>start\<close> is the reading of \<open>time.Now()\<close> at line 36, \<open>sr\<close> what the one call of
  \<open>SendPacket\<close> at line 63 does.
\<close>

definition DestMACAddress ::
  "SSHScanner \<Rightarrow> Time \<Rightarrow> send_result \<Rightarrow> arp_tick list \<Rightarrow> world \<Rightarrow>
   ((error + HardwareAddr) \<times> world \<times> arp_tick list) option" where
  "DestMACAddress s start sr ticks w =
     (let arpDst = (case Gateway s of Some gw \<Rightarrow> gw | None \<Rightarrow> DestIP s)
      in case SendPacket sr (arp_request s arpDst) w of
           (Some err, w') \<Rightarrow> Some (Inl err, w', ticks)
         | (None, w') \<Rightarrow>
             (case arp_wait arpDst start ticks of
                None \<Rightarrow> None
              | Some (res, rest) \<Rightarrow> Some (res, w', rest)))"

section \<open>scanner.go: ScanAddress\<close>

text \<open>
  One iteration of the loop of lines 136 to 192 sees: while nothing has been sent, the
  reading \<open>t_send\<close> of \<open>time.Now()\<close> at line 140 and the outcome \<open>send_res\<close> of
  \<open>SendPacket\<close> at line 141; then the reading \<open>t_check\<close> of the clock in
  \<open>time.Since(start)\<close> at line 149; then, when the deadline has not passed, the result
  \<open>rx\<close> of \<open>ReadPacketData\<close> at line 154.
\<close>

record tick =
  t_send :: Time
  send_res :: send_result
  t_check :: Time
  rx :: "error + Packet"

text \<open>
  The two \<open>return nil\<close> of the loop: line 150 after the deadline (\<open>Closed\<close>) and line 189
  after the SYN+ACK (\<open>Open\<close>, with the TCP layer of the frame that matched). The value
  stored in \<open>start\<close> at line 173 is not read again.
\<close>

datatype verdict = Closed | Open TCP

text \<open>The frame of lines 105 to 125.\<close>

definition syn_frame :: "SSHScanner \<Rightarrow> HardwareAddr \<Rightarrow> SerializableLayer list" where
  "syn_frame s hwaddr =
     [EthernetLayer \<lparr>SrcMAC = HardwareAddr (Interface s),
                     DstMAC = hwaddr,
                     EthernetType = EthernetTypeIPv4\<rparr>,
      IPv4Layer \<lparr>SrcIP = SourceIP s, DstIP = DestIP s, Version = 4, TTL = 64,
                 IPProtocol = IPProtocolTCP\<rparr>,
      TCPLayer \<lparr>SrcPort = 63323, DstPort = 22, SYN = True, ACK = False\<rparr>]"

text \<open>
  Lines 139 to 146, on the loop's \<open>start\<close>, \<open>sent\<close> and the outside:
  \<^verbatim>\<open>
  if !sent {
      start = time.Now()
      if err := sshScanner.SendPacket(&eth, &ip4, &tcp); err != nil {
          fmt.Printf("Error sending to port %v: %v\n", tcp.DstPort, err)
      } else {
          sent = true
      }
  }
  \<close>
\<close>

definition send_error_line :: "error \<Rightarrow> Printf" where
  "send_error_line err =
     (''Error sending to port %v: %v\<newline>'', [ATCPPort 22, AError err])"

definition send_once ::
  "SerializableLayer list \<Rightarrow> tick \<Rightarrow> Time \<times> bool \<times> world \<Rightarrow> Time \<times> bool \<times> world" where
  "send_once frame tk st =
     (case st of (start, sent, w) \<Rightarrow>
        if \<not> sent then
          (case SendPacket (send_res tk) frame w of
             (Some err, w') \<Rightarrow>
               (t_send tk, False, w'\<lparr>stdout := stdout w' @ [send_error_line err]\<rparr>)
           | (None, w') \<Rightarrow> (t_send tk, True, w'))
        else (start, sent, w))"

text \<open>
  Lines 166 to 172: the frame has a network layer whose flow is \<open>netFlow\<close>, it has a TCP
  layer, and that layer has destination port 63323 and the flags SYN and ACK.
\<close>

definition is_reply :: "Flow \<Rightarrow> Packet \<Rightarrow> bool" where
  "is_reply netFlow packet =
     (case netLayer packet of
        None \<Rightarrow> False
      | Some flow \<Rightarrow>
          flow = netFlow \<and>
          (case tcpLayer packet of
             None \<Rightarrow> False
           | Some tcp \<Rightarrow> DstPort tcp = 63323 \<and> SYN tcp \<and> ACK tcp))"

text \<open>Line 158.\<close>

definition read_error_line :: "error \<Rightarrow> Printf" where
  "read_error_line err = (''Error reading packet: %v\<newline>'', [AError err])"

fun probe_loop ::
  "Flow \<Rightarrow> SerializableLayer list \<Rightarrow> Time \<times> bool \<times> world \<Rightarrow> tick list \<Rightarrow>
   (verdict \<times> world \<times> tick list) option" where
  "probe_loop netFlow frame st [] = None"
| "probe_loop netFlow frame st (tk # tks) =
     (case send_once frame tk st of (start, sent, w) \<Rightarrow>
        if t_check tk - start > Second * 3 then Some (Closed, w, tks)
        else
          (case rx tk of
             Inl err \<Rightarrow>
               if err = NextErrorTimeoutExpired
               then probe_loop netFlow frame (start, sent, w) tks
               else probe_loop netFlow frame
                      (start, sent, w\<lparr>stdout := stdout w @ [read_error_line err]\<rparr>) tks
           | Inr packet \<Rightarrow>
               if is_reply netFlow packet then Some (Open (the (tcpLayer packet)), w, tks)
               else probe_loop netFlow frame (start, sent, w) tks))"

section \<open>scanner.go: the banner\<close>

text \<open>
  A connection as \<open>bufio.Reader.ReadString\<close> sees it: the bytes the peer sends, then the
  error that ends the stream (\<open>EOF\<close> when the peer closes), or \<open>None\<close> when the peer sends
  nothing more and keeps the connection open. \<open>ReadString\<close> returns the bytes up to and
  including the first delimiter with a nil error; without a delimiter it returns all the
  bytes and the error that ended the stream, or never returns (\<open>None\<close>).
\<close>

record Conn =
  incoming :: string
  ending :: "error option"

definition ReadString :: "char \<Rightarrow> Conn \<Rightarrow> (string \<times> error option) option" where
  "ReadString delim c =
     (if delim \<in> set (incoming c)
      then Some (takeWhile (\<lambda>b. b \<noteq> delim) (incoming c) @ [delim], None)
      else case ending c of
             None \<Rightarrow> None
           | Some err \<Rightarrow> Some (incoming c, Some err))"

text \<open>\<open>strings.Trim\<close>: all leading and trailing bytes of the cutset are removed.\<close>

definition Trim :: "string \<Rightarrow> string \<Rightarrow> string" where
  "Trim s cutset =
     rev (dropWhile (\<lambda>b. b \<in> set cutset) (rev (dropWhile (\<lambda>b. b \<in> set cutset) s)))"

text \<open>A function returns a value or panics.\<close>

datatype 'a completion = Returns 'a | Panics

text \<open>
  Lines 174 to 185. \<open>dial\<close> is the connection of \<open>net.Dial\<close>, \<open>None\<close> when it failed:
  the error is dropped (\<open>conn, _ :=\<close>), \<open>conn\<close> is nil, and \<open>ReadString\<close> on the reader
  around it calls \<open>Read\<close> on a nil interface, which panics.
\<close>

definition read_banner :: "Conn option \<Rightarrow> string completion option" where
  "read_banner dial =
     (case dial of
        None \<Rightarrow> Some Panics
      | Some conn \<Rightarrow>
          (case ReadString (CHR ''\<newline>'') conn of
             None \<Rightarrow> None
           | Some (str, err) \<Rightarrow>
               (let data = [];
                    data = (if length str > 0 then Trim str ''\<newline>'' else data);
                    data = (if err \<noteq> None then ''Unable to get banner'' else data)
                in Some (Returns data))))"

text \<open>The format of line 187, as it is in the source.\<close>

definition report_format :: string where
  "report_format = ''%sshScanner:%d,%sshScanner\<newline>''"

definition report_line :: "SSHScanner \<Rightarrow> TCP \<Rightarrow> string \<Rightarrow> Printf" where
  "report_line s tcp data =
     (report_format, [AString (IP_String (DestIP s)), AUint16 (SrcPort tcp), AString data])"

text \<open>
  Lines 173 to 189: on the SYN+ACK the banner is read, one line is printed and
  \<open>ScanAddress\<close> returns nil. \<open>tcp\<close> is the TCP layer of the captured reply (the loop's
  \<open>tcp, ok := tcpLayer.(*layers.TCP)\<close> shadows the layer that was sent).
\<close>

definition report ::
  "SSHScanner \<Rightarrow> TCP \<Rightarrow> Conn option \<Rightarrow> world \<Rightarrow> (error option completion \<times> world) option" where
  "report s tcp dial w =
     (case read_banner dial of
        None \<Rightarrow> None
      | Some Panics \<Rightarrow> Some (Panics, w)
      | Some (Returns data) \<Rightarrow>
          Some (Returns None, w\<lparr>stdout := stdout w @ [report_line s tcp data]\<rparr>))"

text \<open>
  Everything a run of \<open>ScanAddress\<close> sees from outside: for \<open>DestMACAddress\<close> the clock at
  line 36, the outcome of its send and its iterations; for the probe the clock at line 133
  and its iterations; the outcome of \<open>net.Dial\<close>.
\<close>

record env =
  arp_now :: Time
  arp_send :: send_result
  arp_ticks :: "arp_tick list"
  probe_now :: Time
  probe_ticks :: "tick list"
  dial :: "Conn option"

definition ScanAddress ::
  "SSHScanner \<Rightarrow> env \<Rightarrow> world \<Rightarrow> (error option completion \<times> world) option" where
  "ScanAddress s ev w =
     (case DestMACAddress s (arp_now ev) (arp_send ev) (arp_ticks ev) w of
        None \<Rightarrow> None
      | Some (Inl err, w1, _) \<Rightarrow> Some (Returns (Some err), w1)
      | Some (Inr hwaddr, w1, _) \<Rightarrow>
          (let netFlow = NewFlow EndpointIPv4 (DestIP s) (SourceIP s)
           in case probe_loop netFlow (syn_frame s hwaddr) (probe_now ev, False, w1)
                     (probe_ticks ev) of
                None \<Rightarrow> None
              | Some (Closed, w2, _) \<Rightarrow> Some (Returns None, w2)
              | Some (Open tcp, w2, _) \<Rightarrow> report s tcp (dial ev) w2))"

section \<open>main.go: one target\<close>

text \<open>
  \<open>create\<close> (lines 15 to 50): \<open>route\<close> is the result of \<open>router.Route(ip)\<close>, \<open>openlive\<close>
  the error of \<open>pcap.OpenLive\<close> (\<open>None\<close> when the handle was opened).
\<close>

type_synonym route = "NetInterface \<times> IP option \<times> IP"

definition create ::
  "IP \<Rightarrow> error + route \<Rightarrow> error option \<Rightarrow> world \<Rightarrow> (error + SSHScanner) \<times> world" where
  "create ip route openlive w =
     (case route of
        Inl err \<Rightarrow> (Inl err, w)
      | Inr (iface, gateway, source) \<Rightarrow>
          (case openlive of
             Some err \<Rightarrow> (Inl err, w)
           | None \<Rightarrow>
               (Inr \<lparr>Interface = iface, DestIP = ip, Gateway = gateway, SourceIP = source\<rparr>,
                w\<lparr>opened := opened w + 1\<rparr>)))"

text \<open>
  The function started with \<open>go\<close> for each target (lines 117 to 139):
  \<^verbatim>\<open>
  sshScanner, err := create(ip, router)
  if err != nil {
      fmt.Printf("Unable to create scanner for %v: %v\n", ip, err)
      wait--
      return false
  }
  if err := sshScanner.ScanAddress(); err != nil {
      wait--
      return false
  }
  sshScanner.Close()
  wait--
  return true
  \<close>
  A panic is not recovered anywhere, so it ends the process.
\<close>

definition scan_target ::
  "IP \<Rightarrow> error + route \<Rightarrow> error option \<Rightarrow> env \<Rightarrow> world \<Rightarrow> (bool completion \<times> world) option" where
  "scan_target ip route openlive ev w =
     (case create ip route openlive w of
        (Inl err, w1) \<Rightarrow>
          Some (Returns False,
                w1\<lparr>stdout := stdout w1 @
                     [(''Unable to create scanner for %v: %v\<newline>'', [AIP ip, AError err])],
                   wait := wait w1 - 1\<rparr>)
      | (Inr sshScanner, w1) \<Rightarrow>
          (case ScanAddress sshScanner ev w1 of
             None \<Rightarrow> None
           | Some (Panics, w2) \<Rightarrow> Some (Panics, w2)
           | Some (Returns (Some err), w2) \<Rightarrow> Some (Returns False, w2\<lparr>wait := wait w2 - 1\<rparr>)
           | Some (Returns None, w2) \<Rightarrow>
               Some (Returns True, (Close w2)\<lparr>wait := wait (Close w2) - 1\<rparr>)))"

section \<open>main.go: the arguments\<close>

text \<open>
  The part of package \<open>net\<close> that lines 85 to 115 use, for IPv4 in dotted decimal
  (IPv6 text is outside this model). \<open>dtoi\<close> reads a decimal number.
\<close>

definition dtoi :: "string \<Rightarrow> nat option" where
  "dtoi s =
     (if s \<noteq> [] \<and> (\<forall>c \<in> set s. c \<in> set ''0123456789'')
      then Some (foldl (\<lambda>n c. 10 * n + (of_char c - 48)) 0 s)
      else None)"

definition fields :: "char \<Rightarrow> string \<Rightarrow> string list" where
  "fields sep s = foldr (\<lambda>c acc. if c = sep then [] # acc else (c # hd acc) # tl acc) s [[]]"

definition parse_octet :: "string \<Rightarrow> byte option" where
  "parse_octet s =
     (case dtoi s of
        None \<Rightarrow> None
      | Some n \<Rightarrow>
          if n \<le> 255 \<and> (length s = 1 \<or> hd s \<noteq> CHR ''0'') then Some (of_nat n) else None)"

definition ParseIP :: "string \<Rightarrow> IP option" where
  "ParseIP s =
     (case map parse_octet (fields (CHR ''.'') s) of
        [Some a, Some b, Some c, Some d] \<Rightarrow> Some [a, b, c, d]
      | _ \<Rightarrow> None)"

text \<open>\<open>net.CIDRMask(ones, 8 * l)\<close>: \<open>l\<close> bytes whose first \<open>ones\<close> bits are set.\<close>

fun CIDRMask :: "nat \<Rightarrow> nat \<Rightarrow> IPMask" where
  "CIDRMask n 0 = []"
| "CIDRMask n (Suc l) =
     (if n \<ge> 8 then 0xff # CIDRMask (n - 8) l
      else NOT (drop_bit n 0xff) # CIDRMask 0 l)"

record IPNet =
  IPNet_IP :: IP
  IPNet_Mask :: IPMask

text \<open>
  \<open>IP.Mask\<close>: the bytes of the address and of the mask are combined with \<open>&\<close>; nil (the
  empty slice) when the lengths differ.
\<close>

definition IP_Mask :: "IP \<Rightarrow> IPMask \<Rightarrow> IP" where
  "IP_Mask ip m = (if length ip \<noteq> length m then [] else map2 (AND) ip m)"

text \<open>\<open>IPNet.Contains\<close>: the address has the length of the network number and agrees
  with it under the mask.\<close>

definition Contains :: "IPNet \<Rightarrow> IP \<Rightarrow> bool" where
  "Contains n ip =
     (length ip = length (IPNet_IP n) \<and>
      map2 (AND) (IPNet_IP n) (IPNet_Mask n) = map2 (AND) ip (IPNet_Mask n))"

text \<open>
  \<open>net.ParseCIDR\<close> for \<open>a.b.c.d/n\<close>: the address and the network, \<open>None\<close> for an error.
  Go returns the address in its 16-byte form; \<open>ip.Mask(ipnet.Mask)\<close>, its only use in
  main.go, turns that into the four bytes used here.
\<close>

definition ParseCIDR :: "string \<Rightarrow> (IP \<times> IPNet) option" where
  "ParseCIDR s =
     (if CHR ''/'' \<notin> set s then None
      else
        (let addr = takeWhile (\<lambda>c. c \<noteq> CHR ''/'') s;
             ones = drop 1 (dropWhile (\<lambda>c. c \<noteq> CHR ''/'') s)
         in case ParseIP addr of
              None \<Rightarrow> None
            | Some ip \<Rightarrow>
                (case dtoi ones of
                   None \<Rightarrow> None
                 | Some n \<Rightarrow>
                     if n > 32 then None
                     else
                       (let m = CIDRMask n 4
                        in Some (ip, \<lparr>IPNet_IP = IP_Mask ip m, IPNet_Mask = m\<rparr>)))))"

text \<open>
  The slice \<open>args\<close> of lines 81 to 100. \<open>for _, arg := range args\<close> reads the slice
  once: the loop walks the cells of the array that \<open>flag.Args()\<close> returned, up to the
  length it had. \<open>range_view\<close> is what those cells hold, \<open>args\<close> what the variable holds,
  and \<open>aliased\<close> tells whether the variable still points into the array the loop reads;
  \<open>cap0\<close> is the capacity of the slice that \<open>flag.Args()\<close> returned. An \<open>append\<close> beyond the
  capacity moves \<open>args\<close> to a new array.
\<close>

record slices =
  range_view :: "string list"
  args :: "string list"
  aliased :: bool

definition append_arg :: "nat \<Rightarrow> slices \<Rightarrow> string \<Rightarrow> slices" where
  "append_arg cap0 sl x =
     sl\<lparr>args := args sl @ [x], aliased := (aliased sl \<and> length (args sl) < cap0)\<rparr>"

text \<open>
  \<^verbatim>\<open>
  func remove(slice []string, sshScanner int) []string {
      return append(slice[:sshScanner], slice[sshScanner + 1:]...)
  }
  \<close>
  The \<open>append\<close> has room in the array of \<open>slice\<close>, so it moves the cells after the index
  one place down, in place. The result is the returned slice and what the cells of
  \<open>slice\<close> hold afterwards (the last cell keeps its value). Slicing panics when the
  index is not below the length.
\<close>

definition remove :: "string list \<Rightarrow> nat \<Rightarrow> (string list \<times> string list) completion" where
  "remove cells i =
     (if i < length cells
      then Returns (take i cells @ drop (Suc i) cells,
                    take i cells @ drop (Suc i) cells @ [last cells])
      else Panics)"

text \<open>
  Line 93 to 95:
  \<^verbatim>\<open>
  for ip := ip.Mask(ipnet.Mask); ipnet.Contains(ip); expand(ip) {
      args = append(args, ip.String())
  }
  \<close>
  \<open>None\<close>: the loop does not end.
\<close>

partial_function (option) cidr_loop :: "nat \<Rightarrow> IPNet \<Rightarrow> IP \<Rightarrow> slices \<Rightarrow> slices option" where
  "cidr_loop cap0 ipnet ip sl =
     (if Contains ipnet ip
      then cidr_loop cap0 ipnet (expand ip) (append_arg cap0 sl (IP_String ip))
      else Some sl)"

declare cidr_loop.simps [code]

text \<open>
  Lines 85 to 100. The counter of the model is the number of cells the \<open>range\<close> has still
  to visit, \<open>len0\<close> the length of \<open>args\<close> when the loop was entered. The result of
  \<open>remove(args, i)\<close> is dropped, so \<open>args\<close> keeps its length and sees the moved cells. When
  \<open>ParseCIDR\<close> fails the error is printed and \<open>ipnet\<close> is nil, so \<open>ipnet.Mask\<close> panics.
\<close>

fun range_args :: "nat \<Rightarrow> nat \<Rightarrow> nat \<Rightarrow> nat \<Rightarrow> slices \<Rightarrow> slices completion option" where
  "range_args cap0 len0 i 0 sl = Some (Returns sl)"
| "range_args cap0 len0 i (Suc m) sl =
     (let arg = range_view sl ! (len0 - Suc m)
      in if CHR ''/'' \<in> set arg then
           (case ParseCIDR arg of
              None \<Rightarrow> Some Panics
            | Some (ip, ipnet) \<Rightarrow>
                (case cidr_loop cap0 ipnet (IP_Mask ip (IPNet_Mask ipnet)) sl of
                   None \<Rightarrow> None
                 | Some sl1 \<Rightarrow>
                     (case remove (args sl1) i of
                        Panics \<Rightarrow> Some Panics
                      | Returns (_, cells) \<Rightarrow>
                          range_args cap0 len0 (i + 1) m
                            (sl1\<lparr>args := cells,
                                 range_view :=
                                   (if aliased sl1 then take len0 cells
                                    else range_view sl1)\<rparr>))))
         else range_args cap0 len0 i m sl)"

text \<open>The arguments after line 100, for the arguments \<open>args0\<close> of the command line.\<close>

definition expand_args :: "nat \<Rightarrow> string list \<Rightarrow> string list completion option" where
  "expand_args cap0 args0 =
     (case range_args cap0 (length args0) 0 (length args0)
             \<lparr>range_view = args0, args = args0, aliased = True\<rparr> of
        None \<Rightarrow> None
      | Some Panics \<Rightarrow> Some Panics
      | Some (Returns sl) \<Rightarrow> Some (Returns (args sl)))"

text \<open>
  Lines 106 to 115: the addresses for which a scan is started, in order. An argument that
  is not an IPv4 address is reported and skipped.
\<close>

definition targets :: "string list \<Rightarrow> IP list" where
  "targets as = List.map_filter ParseIP as"

section \<open>The probe's deadline\<close>

text \<open>
  The deadline of the probe is measured from the moment of the successful send. For a run
  of the loop over the iterations \<open>tks\<close> that starts with the clock value \<open>start\<close> and the
  flag \<open>sent\<close>: \<open>first_sent\<close> is the first iteration whose send succeeds,
  \<open>deadline_start\<close> the moment from which iteration \<open>i\<close> measures (the send of the first
  successful iteration up to \<open>i\<close>; the send attempt of iteration \<open>i\<close> itself while none
  has succeeded), \<open>deadline_passed\<close> tells that iteration \<open>i\<close> finds more than three
  seconds elapsed, and \<open>qualifies\<close> that an iteration captures the expected reply.
\<close>

fun first_sent :: "tick list \<Rightarrow> nat option" where
  "first_sent [] = None"
| "first_sent (tk # tks) =
     (if send_res tk = WriteOk then Some 0 else map_option Suc (first_sent tks))"

definition deadline_start :: "Time \<Rightarrow> bool \<Rightarrow> tick list \<Rightarrow> nat \<Rightarrow> Time" where
  "deadline_start start sent tks i =
     (if sent then start
      else case first_sent (take (Suc i) tks) of
             Some k \<Rightarrow> t_send (tks ! k)
           | None \<Rightarrow> t_send (tks ! i))"

definition deadline_passed :: "Time \<Rightarrow> bool \<Rightarrow> tick list \<Rightarrow> nat \<Rightarrow> bool" where
  "deadline_passed start sent tks i =
     (t_check (tks ! i) - deadline_start start sent tks i > 3 * Second)"

definition qualifies :: "Flow \<Rightarrow> tick \<Rightarrow> bool" where
  "qualifies netFlow tk = (case rx tk of Inl err \<Rightarrow> False | Inr packet \<Rightarrow> is_reply netFlow packet)"

section \<open>What the loops skip, write and print\<close>

text \<open>
  An iteration of the resolution loop is skipped when the deadline has not passed and the
  read timed out or gave a frame that is not an ARP layer from the address asked for.
\<close>

definition arp_answers :: "IP \<Rightarrow> Packet \<Rightarrow> bool" where
  "arp_answers arpDst packet =
     (case arpLayer packet of
        None \<Rightarrow> False
      | Some arp \<Rightarrow> IP_Equal (SourceProtAddress arp) arpDst)"

definition arp_skipped :: "IP \<Rightarrow> Time \<Rightarrow> arp_tick \<Rightarrow> bool" where
  "arp_skipped arpDst start tk =
     (fst tk - start \<le> 3 * Second \<and>
      (case snd tk of
         Inl err \<Rightarrow> err = NextErrorTimeoutExpired
       | Inr packet \<Rightarrow> \<not> arp_answers arpDst packet))"

text \<open>
  The calls of \<open>WritePacketData\<close> that a probe makes while it passes through the given
  iterations without having sent: one for each iteration until the first that succeeds,
  none for an iteration whose frame does not serialize. \<open>send_errors\<close> are the errors of
  the sends that failed on the way.
\<close>

fun attempts ::
  "SerializableLayer list \<Rightarrow> tick list \<Rightarrow> (SerializableLayer list \<times> error option) list" where
  "attempts frame [] = []"
| "attempts frame (tk # tks) =
     (case send_res tk of
        SerializeFails err \<Rightarrow> attempts frame tks
      | WriteFails err \<Rightarrow> (frame, Some err) # attempts frame tks
      | WriteOk \<Rightarrow> [(frame, None)])"

fun send_errors :: "tick list \<Rightarrow> error list" where
  "send_errors [] = []"
| "send_errors (tk # tks) =
     (case send_res tk of
        SerializeFails err \<Rightarrow> err # send_errors tks
      | WriteFails err \<Rightarrow> err # send_errors tks
      | WriteOk \<Rightarrow> [])"

definition is_send_error_line :: "Printf \<Rightarrow> bool" where
  "is_send_error_line l = (fst l = ''Error sending to port %v: %v\<newline>'')"

text \<open>The same iteration with a failed read turned into a read that timed out.\<close>

definition as_timeout :: "tick \<Rightarrow> tick" where
  "as_timeout tk =
     tk\<lparr>rx := (case rx tk of Inl err \<Rightarrow> Inl NextErrorTimeoutExpired | Inr packet \<Rightarrow> Inr packet)\<rparr>"

text \<open>A report line is a line printed with the format of line 187.\<close>

definition is_report :: "Printf \<Rightarrow> bool" where
  "is_report l = (fst l = report_format)"

text \<open>The verdict that the probe of a scan reaches, if the scan gets that far.\<close>

definition scan_verdict :: "SSHScanner \<Rightarrow> env \<Rightarrow> world \<Rightarrow> verdict option" where
  "scan_verdict s ev w =
     (case DestMACAddress s (arp_now ev) (arp_send ev) (arp_ticks ev) w of
        Some (Inr hwaddr, w1, _) \<Rightarrow>
          map_option fst
            (probe_loop (NewFlow EndpointIPv4 (DestIP s) (SourceIP s)) (syn_frame s hwaddr)
               (probe_now ev, False, w1) (probe_ticks ev))
      | _ \<Rightarrow> None)"

text \<open>
  \<open>fmt.Sprintf\<close> for the verbs \<open>%s\<close> on a string and \<open>%d\<close> on an unsigned number, each
  taking the next argument; \<open>None\<close> for anything else.
\<close>

fun verb :: "char \<Rightarrow> arg \<Rightarrow> string option" where
  "verb c (AString x) = (if c = CHR ''s'' then Some x else None)"
| "verb c (AUint16 n) = (if c = CHR ''d'' then Some (dec (unat n)) else None)"
| "verb c a = None"

fun Sprintf :: "string \<Rightarrow> arg list \<Rightarrow> string option" where
  "Sprintf [] as = (if as = [] then Some [] else None)"
| "Sprintf [c] as = (if c = CHR ''%'' then None else map_option ((#) c) (Sprintf [] as))"
| "Sprintf (c # v # rest) as =
     (if c = CHR ''%'' then
        (case as of
           [] \<Rightarrow> None
         | a # as' \<Rightarrow>
             (case verb v a of
                None \<Rightarrow> None
              | Some r \<Rightarrow> map_option ((@) r) (Sprintf rest as')))
      else map_option ((#) c) (Sprintf (v # rest) as))"

text \<open>
  The second field of a printed report line \<open><address>:<port>,<banner>\<close>: the text after
  the first comma, up to the line terminator.
\<close>

definition banner_field :: "string \<Rightarrow> string" where
  "banner_field l =
     takeWhile (\<lambda>c. c \<noteq> CHR ''\<newline>'') (drop 1 (dropWhile (\<lambda>c. c \<noteq> CHR '','') l))"

text \<open>What an iteration that goes on to the next one prints about its read.\<close>

definition read_errors :: "tick \<Rightarrow> Printf list" where
  "read_errors tk =
     (case rx tk of
        Inl err \<Rightarrow> if err = NextErrorTimeoutExpired then [] else [read_error_line err]
      | Inr packet \<Rightarrow> [])"

section \<open>Example values\<close>

text \<open>
  A scanner on the local subnet (no gateway) for 10.0.0.5 from 10.0.0.2, the frames it can
  capture, and a world in which nothing has happened yet.
\<close>

definition ex_scanner :: SSHScanner where
  "ex_scanner =
     \<lparr>Interface = \<lparr>Name = ''eth0'', HardwareAddr = [2, 0, 0, 0, 0, 1]\<rparr>,
      DestIP = [10, 0, 0, 5], Gateway = None, SourceIP = [10, 0, 0, 2]\<rparr>"

definition ex_world :: world where
  "ex_world = \<lparr>stdout = [], written = [], opened = 1, closed = 0, wait = 1\<rparr>"

definition ex_arp_reply :: Packet where
  "ex_arp_reply =
     \<lparr>netLayer = None, tcpLayer = None,
      arpLayer = Some \<lparr>AddrType = 1, Protocol = 0x0800, HwAddressSize = 6, ProtAddressSize = 4,
                       Operation = 2, SourceHwAddress = [2, 0, 0, 0, 0, 5],
                       SourceProtAddress = [10, 0, 0, 5],
                       DstHwAddress = [2, 0, 0, 0, 0, 1], DstProtAddress = [10, 0, 0, 2]\<rparr>\<rparr>"

definition ex_other_arp :: Packet where
  "ex_other_arp =
     \<lparr>netLayer = None, tcpLayer = None,
      arpLayer = Some \<lparr>AddrType = 1, Protocol = 0x0800, HwAddressSize = 6, ProtAddressSize = 4,
                       Operation = 2, SourceHwAddress = [2, 0, 0, 0, 0, 9],
                       SourceProtAddress = [10, 0, 0, 9],
                       DstHwAddress = [2, 0, 0, 0, 0, 1], DstProtAddress = [10, 0, 0, 2]\<rparr>\<rparr>"

definition ex_synack :: Packet where
  "ex_synack =
     \<lparr>netLayer = Some \<lparr>endpointType = EndpointIPv4, src = [10, 0, 0, 5], dst = [10, 0, 0, 2]\<rparr>,
      tcpLayer = Some \<lparr>SrcPort = 22, DstPort = 63323, SYN = True, ACK = True\<rparr>,
      arpLayer = None\<rparr>"

definition ex_swapped :: Packet where
  "ex_swapped =
     \<lparr>netLayer = Some \<lparr>endpointType = EndpointIPv4, src = [10, 0, 0, 2], dst = [10, 0, 0, 5]\<rparr>,
      tcpLayer = Some \<lparr>SrcPort = 22, DstPort = 63323, SYN = True, ACK = True\<rparr>,
      arpLayer = None\<rparr>"

definition ex_flow :: Flow where
  "ex_flow = NewFlow EndpointIPv4 [10, 0, 0, 5] [10, 0, 0, 2]"

definition ex_frame :: "SerializableLayer list" where
  "ex_frame = syn_frame ex_scanner [2, 0, 0, 0, 0, 5]"

text \<open>
  Iterations of the probe loop: the send works and a frame is captured at the given
  time; the send fails and the read times out.
\<close>

definition ex_tick :: "Time \<Rightarrow> error + Packet \<Rightarrow> tick" where
  "ex_tick t r = \<lparr>t_send = t, send_res = WriteOk, t_check = t, rx = r\<rparr>"

definition ex_tick_unsent :: "Time \<Rightarrow> tick" where
  "ex_tick_unsent t =
     \<lparr>t_send = t, send_res = WriteFails (OtherError ''send failed''), t_check = t,
      rx = Inl NextErrorTimeoutExpired\<rparr>"

text \<open>
  Runs of \<open>ScanAddress\<close>: the resolution gets its reply in the first iteration; then the
  probe gets the SYN+ACK and the service greets, or the dial fails, or the probe gets
  nothing before the deadline. In the last run the resolution gets no reply.
\<close>

definition ex_banner_env :: env where
  "ex_banner_env =
     \<lparr>arp_now = 0, arp_send = WriteOk, arp_ticks = [(1, Inr ex_arp_reply)],
      probe_now = 2, probe_ticks = [ex_tick 3 (Inr ex_synack)],
      dial = Some \<lparr>incoming = ''SSH-2.0-OpenSSH\<newline>'', ending = None\<rparr>\<rparr>"

definition ex_refused_env :: env where
  "ex_refused_env = ex_banner_env\<lparr>dial := None\<rparr>"

definition ex_silent_env :: env where
  "ex_silent_env =
     ex_banner_env\<lparr>probe_ticks := [ex_tick 3 (Inl NextErrorTimeoutExpired),
                                    ex_tick (4 * Second) (Inl NextErrorTimeoutExpired)]\<rparr>"

definition ex_unresolved_env :: env where
  "ex_unresolved_env =
     ex_banner_env\<lparr>arp_ticks := [(1, Inl NextErrorTimeoutExpired),
                                  (4 * Second, Inl NextErrorTimeoutExpired)]\<rparr>"

definition is_read_error_line :: "Printf \<Rightarrow> bool" where
  "is_read_error_line l = (fst l = ''Error reading packet: %v\<newline>'')"

text \<open>
  A run in which the first read of the probe fails and the second captures the SYN+ACK, a
  scanner whose target is behind the gateway 10.0.0.1, and an ARP frame from that gateway.
\<close>

definition ex_read_failure_env :: env where
  "ex_read_failure_env =
     ex_banner_env\<lparr>probe_ticks := [ex_tick 3 (Inl (OtherError ''read failed'')),
                                    ex_tick 4 (Inr ex_synack)]\<rparr>"

definition ex_routed_scanner :: SSHScanner where
  "ex_routed_scanner =
     \<lparr>Interface = \<lparr>Name = ''eth0'', HardwareAddr = [2, 0, 0, 0, 0, 1]\<rparr>,
      DestIP = [192, 168, 7, 7], Gateway = Some [10, 0, 0, 1], SourceIP = [10, 0, 0, 2]\<rparr>"

definition ex_gateway_arp :: Packet where
  "ex_gateway_arp =
     \<lparr>netLayer = None, tcpLayer = None,
      arpLayer = Some \<lparr>AddrType = 1, Protocol = 0x0800, HwAddressSize = 6, ProtAddressSize = 4,
                       Operation = 2, SourceHwAddress = [2, 0, 0, 0, 0, 0xfe],
                       SourceProtAddress = [10, 0, 0, 1],
                       DstHwAddress = [2, 0, 0, 0, 0, 1], DstProtAddress = [10, 0, 0, 2]\<rparr>\<rparr>"

section \<open>Properties of expand\<close>

lemma byte_less_256: "unat (b::byte) < 256"
  using unsigned_less [of b, where 'a=nat] by simp

lemma byte_wraps: "(x::byte) + 1 = 0 \<Longrightarrow> unat x = 255"
proof -
  assume "x + 1 = 0"
  then have "x = -1" by (simp add: eq_neg_iff_add_eq_0)
  then show ?thesis by (simp add: unsigned_minus_1_eq_mask mask_eq_exp_minus_1)
qed

lemma byte_no_wrap: "(x::byte) + 1 \<noteq> 0 \<Longrightarrow> unat (x + 1) = unat x + 1"
  using unatSuc [of x] by (simp add: add.commute)

lemma replicate_ff_update:
  "(replicate (Suc k) (255::byte) @ replicate m 0)[k := 0]
     = replicate k 255 @ replicate (Suc m) 0"
proof -
  have "replicate (Suc k) (255::byte) @ replicate m 0 = replicate k 255 @ 255 # replicate m 0"
    by (simp add: replicate_app_Cons_same)
  then show ?thesis
    using list_update_length [of "replicate k (255::byte)" 255 "replicate m 0" 0] by simp
qed

lemma replicate_ff_nth: "(replicate (Suc k) (255::byte) @ replicate m 0) ! k = 255"
  by (metis length_replicate lessI nth_append nth_replicate)

lemma be_val_snoc: "be_val (bs @ [b]) = be_val bs * 256 + unat b"
  by (simp add: be_val_def)

lemma be_val_bound: "be_val bs < 256 ^ length bs"
proof (induction bs rule: rev_induct)
  case Nil
  show ?case by (simp add: be_val_def)
next
  case (snoc b bs)
  have "unat b < 256" by (rule byte_less_256)
  with snoc show ?case by (simp add: be_val_snoc)
qed

lemma expand_from_length: "length (expand_from n ip) = length ip"
  by (induction n arbitrary: ip) (simp_all add: Let_def)

lemma expand_from_drop: "n \<le> length ip \<Longrightarrow> drop n (expand_from n ip) = drop n ip"
proof (induction n arbitrary: ip)
  case 0
  show ?case by simp
next
  case (Suc j)
  let ?ip' = "ip[j := ip ! j + 1]"
  have j: "j < length ip" using Suc.prems by simp
  show ?case
  proof (cases "?ip' ! j > 0")
    case True
    then show ?thesis by (simp add: Let_def)
  next
    case False
    have "drop j (expand_from j ?ip') = drop j ?ip'"
      using Suc.IH [of ?ip'] j by simp
    then have "drop (Suc j) (expand_from j ?ip') = drop (Suc j) ?ip'"
      by (metis drop_drop plus_1_eq_Suc)
    with False show ?thesis by (simp add: Let_def)
  qed
qed

lemma expand_from_take:
  "n \<le> length ip \<Longrightarrow>
   be_val (take n (expand_from n ip)) = (be_val (take n ip) + 1) mod 256 ^ n"
proof (induction n arbitrary: ip)
  case 0
  show ?case by (simp add: be_val_def)
next
  case (Suc j)
  let ?ip' = "ip[j := ip ! j + 1]"
  have j: "j < length ip" using Suc.prems by simp
  have tk: "take (Suc j) ip = take j ip @ [ip ! j]"
    using j by (simp add: take_Suc_conv_app_nth)
  have bnd: "be_val (take j ip) < 256 ^ j"
    using be_val_bound [of "take j ip"] j by simp
  have ub: "unat (ip ! j) < 256" by (rule byte_less_256)
  show ?case
  proof (cases "?ip' ! j > 0")
    case True
    then have nz: "ip ! j + 1 \<noteq> 0" using j by simp
    have u: "unat (ip ! j + 1) = unat (ip ! j) + 1"
      using nz by (rule byte_no_wrap)
    have t': "take (Suc j) ?ip' = take j ip @ [ip ! j + 1]"
      using j by (simp add: take_Suc_conv_app_nth)
    have "unat (ip ! j) + 1 < 256"
      using u byte_less_256 [of "ip ! j + 1"] by simp
    then have "be_val (take j ip) * 256 + unat (ip ! j) + 1 < 256 ^ Suc j"
      using bnd by simp
    then show ?thesis using True tk t' u by (simp add: Let_def be_val_snoc)
  next
    case False
    then have z: "ip ! j + 1 = 0" using j by (simp add: word_greater_zero_iff)
    then have ff: "unat (ip ! j) = 255" by (rule byte_wraps)
    let ?r = "expand_from j ?ip'"
    have len: "length ?r = length ip" by (simp add: expand_from_length)
    have "drop j ?r = drop j ?ip'" using expand_from_drop [of j ?ip'] j by simp
    then have "?r ! j = ?ip' ! j"
      using j len by (metis Cons_nth_drop_Suc length_list_update list.inject)
    then have rj: "?r ! j = 0" using z j by simp
    have "take (Suc j) ?r = take j ?r @ [?r ! j]"
      using j len by (simp add: take_Suc_conv_app_nth)
    then have "be_val (take (Suc j) ?r) = be_val (take j ?r) * 256"
      using rj by (simp add: be_val_snoc)
    also have "be_val (take j ?r) = (be_val (take j ?ip') + 1) mod 256 ^ j"
      using Suc.IH [of ?ip'] j by simp
    also have "take j ?ip' = take j ip" by simp
    finally have "be_val (take (Suc j) ?r) = ((be_val (take j ip) + 1) mod 256 ^ j) * 256" .
    moreover have "be_val (take (Suc j) ip) + 1 = (be_val (take j ip) + 1) * 256"
      using tk ff by (simp add: be_val_snoc)
    moreover have "((be_val (take j ip) + 1) * 256) mod (256 ^ j * 256)
        = ((be_val (take j ip) + 1) mod 256 ^ j) * 256"
      by (rule mod_mult_mult2)
    moreover have "(256::nat) ^ Suc j = 256 ^ j * 256" by simp
    ultimately have "be_val (take (Suc j) ?r) = (be_val (take (Suc j) ip) + 1) mod 256 ^ Suc j"
      by (simp only:)
    then show ?thesis using False by (simp add: Let_def)
  qed
qed

text \<open>
  C10: \<open>expand\<close> replaces the byte slice, read as a big-endian base-256 number, by its
  successor modulo \<open>2 ^ (8 * len)\<close>, keeping the length; an all-\<open>0xFF\<close> slice wraps to
  all zeros. The statement holds for the empty slice too.
\<close>

theorem expand_successor:
  "length (expand ip) = length ip \<and>
   be_val (expand ip) = (be_val ip + 1) mod 2 ^ (8 * length ip) \<and>
   expand (replicate n 255) = replicate n 0"
proof -
  have "be_val (expand ip) = (be_val ip + 1) mod 256 ^ length ip"
    using expand_from_take [of "length ip" ip]
    by (simp add: expand_def expand_from_length)
  moreover have "(256::nat) ^ length ip = 2 ^ (8 * length ip)"
    by (simp add: power_mult)
  moreover have "expand_from k (replicate k 255 @ replicate m 0) = replicate (k + m) 0" for k m
  proof (induction k arbitrary: m)
    case 0
    show ?case by simp
  next
    case (Suc k)
    define xs :: "byte list" where "xs = replicate (Suc k) 255 @ replicate m 0"
    have nth: "xs ! k = 255" unfolding xs_def by (rule replicate_ff_nth)
    then have inc: "xs ! k + 1 = 0" by simp
    have upd: "xs[k := 0] = replicate k 255 @ replicate (Suc m) 0"
      unfolding xs_def by (rule replicate_ff_update)
    have z: "(replicate k (255::byte) @ replicate (Suc m) 0) ! k = 0"
      by (simp add: nth_append)
    have "expand_from (Suc k) xs = expand_from k (replicate k 255 @ replicate (Suc m) 0)"
      by (simp only: expand_from.simps Let_def inc upd z) simp
    then have "expand_from (Suc k) (replicate (Suc k) 255 @ replicate m 0)
        = expand_from k (replicate k 255 @ replicate (Suc m) 0)"
      unfolding xs_def .
    then show ?case using Suc.IH [of "Suc m"] by simp
  qed
  from this [of n 0] have "expand (replicate n 255) = replicate n 0"
    by (simp add: expand_def)
  ultimately show ?thesis by (simp add: expand_def expand_from_length)
qed

section \<open>Properties of the banner\<close>

lemma takeWhile_line:
  "delim \<notin> set line \<Longrightarrow> takeWhile (\<lambda>b. b \<noteq> delim) (line @ delim # after) = line"
  by (induction line) auto

lemma Trim_line:
  assumes "delim \<notin> set line"
  shows "Trim (line @ [delim]) [delim] = line"
proof (cases line)
  case Nil
  then show ?thesis by (simp add: Trim_def)
next
  case (Cons c cs)
  with assms have c: "c \<noteq> delim" by auto
  have front: "dropWhile (\<lambda>b. b \<in> set [delim]) (line @ [delim]) = line @ [delim]"
    using Cons c by simp
  have "dropWhile (\<lambda>b. b \<in> set [delim]) (rev line) = rev line"
    using assms by (cases "rev line") (auto simp: dropWhile_eq_self_iff)
  then have rear: "dropWhile (\<lambda>b. b \<in> set [delim]) (rev (line @ [delim])) = rev line"
    by simp
  show ?thesis unfolding Trim_def front rear by simp
qed

lemma ReadString_line:
  "delim \<notin> set line \<Longrightarrow>
   ReadString delim \<lparr>incoming = line @ delim # after, ending = e\<rparr> = Some (line @ [delim], None)"
  by (simp add: ReadString_def takeWhile_line)

lemma ReadString_no_line:
  "delim \<notin> set bytes \<Longrightarrow>
   ReadString delim \<lparr>incoming = bytes, ending = Some err\<rparr> = Some (bytes, Some err)"
  by (simp add: ReadString_def)

lemma read_banner_line:
  assumes "CHR ''\<newline>'' \<notin> set line"
  shows "read_banner (Some \<lparr>incoming = line @ CHR ''\<newline>'' # after, ending = e\<rparr>)
           = Some (Returns line)"
  using assms Trim_line [of "CHR ''\<newline>''" line]
  by (simp add: read_banner_def ReadString_line)

lemma read_banner_no_line:
  assumes "CHR ''\<newline>'' \<notin> set bytes"
  shows "read_banner (Some \<lparr>incoming = bytes, ending = Some err\<rparr>)
           = Some (Returns ''Unable to get banner'')"
  using assms by (simp add: read_banner_def ReadString_no_line)

text \<open>
  The argument that \<open>report\<close> hands to \<open>Printf\<close> for the banner: the first line of the
  stream without its line terminator, or \<open>Unable to get banner\<close> when the stream ends
  before a line is complete; \<open>report\<close> returns nil in both cases.
\<close>

lemma report_banner_argument:
  "(CHR ''\<newline>'' \<notin> set line \<longrightarrow>
      report s tcp (Some \<lparr>incoming = line @ CHR ''\<newline>'' # after, ending = e\<rparr>) w
        = Some (Returns None, w\<lparr>stdout := stdout w @ [report_line s tcp line]\<rparr>)) \<and>
   (CHR ''\<newline>'' \<notin> set bytes \<longrightarrow>
      report s tcp (Some \<lparr>incoming = bytes, ending = Some err\<rparr>) w
        = Some (Returns None,
                w\<lparr>stdout := stdout w @ [report_line s tcp ''Unable to get banner'']\<rparr>))"
  by (simp add: report_def read_banner_line read_banner_no_line)

section \<open>Properties of the probe loop\<close>

lemma send_once_sent:
  "send_once fr tk (start, True, w) = (start, True, w)"
  by (simp add: send_once_def)

lemma send_once_start:
  "fst (send_once fr tk (start, sent, w)) = deadline_start start sent (tk # tks) 0"
  by (cases "send_res tk")
     (simp_all add: send_once_def deadline_start_def SendPacket_def)

lemma send_once_shift:
  "send_once fr tk (start, sent, w) = (start1, sent1, w1) \<Longrightarrow>
   deadline_start start1 sent1 tks i = deadline_start start sent (tk # tks) (Suc i)"
  by (cases "send_res tk"; cases "first_sent (take (Suc i) tks)")
     (auto simp add: send_once_def deadline_start_def SendPacket_def split: if_splits)

lemma probe_loop_head_passed:
  assumes "deadline_passed start sent (tk # tks) 0"
  shows "\<exists>w'. probe_loop nf fr (start, sent, w) (tk # tks) = Some (Closed, w', tks)"
proof -
  obtain s1 b1 w1 where so: "send_once fr tk (start, sent, w) = (s1, b1, w1)"
    by (cases "send_once fr tk (start, sent, w)") auto
  have "s1 = deadline_start start sent (tk # tks) 0"
    using send_once_start [of fr tk start sent w tks] so by simp
  with assms have "t_check tk - s1 > Second * 3"
    by (simp add: deadline_passed_def)
  with so show ?thesis by simp
qed

lemma probe_loop_head_reply:
  assumes "\<not> deadline_passed start sent (tk # tks) 0"
      and "rx tk = Inr packet" and "is_reply nf packet"
  shows "\<exists>w'. probe_loop nf fr (start, sent, w) (tk # tks)
           = Some (Open (the (tcpLayer packet)), w', tks)"
proof -
  obtain s1 b1 w1 where so: "send_once fr tk (start, sent, w) = (s1, b1, w1)"
    by (cases "send_once fr tk (start, sent, w)") auto
  have "s1 = deadline_start start sent (tk # tks) 0"
    using send_once_start [of fr tk start sent w tks] so by simp
  with assms have "\<not> t_check tk - s1 > Second * 3"
    by (simp add: deadline_passed_def)
  with so assms show ?thesis by simp
qed

lemma probe_loop_head_skip:
  assumes "\<not> deadline_passed start sent (tk # tks) 0" and "\<not> qualifies nf tk"
  shows "\<exists>start1 sent1 w1.
           probe_loop nf fr (start, sent, w) (tk # tks) = probe_loop nf fr (start1, sent1, w1) tks \<and>
           (\<forall>i. deadline_passed start1 sent1 tks i = deadline_passed start sent (tk # tks) (Suc i))"
proof -
  obtain s1 b1 w1 where so: "send_once fr tk (start, sent, w) = (s1, b1, w1)"
    by (cases "send_once fr tk (start, sent, w)") auto
  have "s1 = deadline_start start sent (tk # tks) 0"
    using send_once_start [of fr tk start sent w tks] so by simp
  with assms have np: "\<not> t_check tk - s1 > Second * 3"
    by (simp add: deadline_passed_def)
  have sh: "deadline_passed s1 b1 tks i = deadline_passed start sent (tk # tks) (Suc i)" for i
    using send_once_shift [OF so, of tks i] by (simp add: deadline_passed_def)
  show ?thesis
  proof (cases "rx tk")
    case (Inl err)
    show ?thesis
    proof (cases "err = NextErrorTimeoutExpired")
      case True
      with Inl so np have "probe_loop nf fr (start, sent, w) (tk # tks) = probe_loop nf fr (s1, b1, w1) tks"
        by simp
      with sh show ?thesis by blast
    next
      case False
      with Inl so np have "probe_loop nf fr (start, sent, w) (tk # tks)
          = probe_loop nf fr (s1, b1, w1\<lparr>stdout := stdout w1 @ [read_error_line err]\<rparr>) tks"
        by simp
      with sh show ?thesis by blast
    qed
  next
    case (Inr packet)
    with assms(2) have "\<not> is_reply nf packet" by (simp add: qualifies_def)
    with Inr so np have "probe_loop nf fr (start, sent, w) (tk # tks) = probe_loop nf fr (s1, b1, w1) tks"
      by simp
    with sh show ?thesis by blast
  qed
qed

lemma probe_loop_decides:
  assumes "n < length tks"
      and "\<forall>i<n. \<not> deadline_passed start sent tks i \<and> \<not> qualifies nf (tks ! i)"
  shows "(deadline_passed start sent tks n \<longrightarrow>
            (\<exists>w'. probe_loop nf fr (start, sent, w) tks = Some (Closed, w', drop (Suc n) tks))) \<and>
         (\<forall>packet. \<not> deadline_passed start sent tks n \<and> rx (tks ! n) = Inr packet \<and>
                   is_reply nf packet \<longrightarrow>
            (\<exists>w'. probe_loop nf fr (start, sent, w) tks
                     = Some (Open (the (tcpLayer packet)), w', drop (Suc n) tks)))"
  using assms
proof (induction n arbitrary: tks start sent w)
  case 0
  then obtain tk tks' where tks: "tks = tk # tks'" by (cases tks) auto
  show ?case
    unfolding tks
    using probe_loop_head_passed [of start sent tk tks' nf fr w]
          probe_loop_head_reply [of start sent tk tks' _ nf fr w]
    by auto
next
  case (Suc n)
  then obtain tk tks' where tks: "tks = tk # tks'" by (cases tks) auto
  from Suc.prems have h0: "\<not> deadline_passed start sent (tk # tks') 0" "\<not> qualifies nf tk"
    unfolding tks by auto
  from probe_loop_head_skip [OF h0, of fr w]
  obtain s1 b1 w1 where
    eq: "probe_loop nf fr (start, sent, w) (tk # tks') = probe_loop nf fr (s1, b1, w1) tks'" and
    sh: "\<And>i. deadline_passed s1 b1 tks' i = deadline_passed start sent (tk # tks') (Suc i)"
    by blast
  have n: "n < length tks'" using Suc.prems(1) tks by simp
  have pre: "\<forall>i<n. \<not> deadline_passed s1 b1 tks' i \<and> \<not> qualifies nf (tks' ! i)"
  proof (intro allI impI)
    fix i assume "i < n"
    then have "Suc i < Suc n" by simp
    with Suc.prems(2) have "\<not> deadline_passed start sent tks (Suc i) \<and> \<not> qualifies nf (tks ! Suc i)"
      by blast
    then show "\<not> deadline_passed s1 b1 tks' i \<and> \<not> qualifies nf (tks' ! i)"
      by (simp add: sh tks)
  qed
  from Suc.IH [OF n pre, of w1] show ?case
    unfolding tks eq by (simp add: sh del: probe_loop.simps)
qed

lemma is_reply_iff:
  "is_reply netFlow packet \<longleftrightarrow>
     netLayer packet = Some netFlow \<and>
     (\<exists>tcp. tcpLayer packet = Some tcp \<and> DstPort tcp = 63323 \<and> SYN tcp \<and> ACK tcp)"
  by (auto simp: is_reply_def split: option.splits)

lemma ScanAddress_closed:
  assumes "DestMACAddress s (arp_now ev) (arp_send ev) (arp_ticks ev) w0 = Some (Inr hwaddr, w1, r1)"
      and "probe_loop (NewFlow EndpointIPv4 (DestIP s) (SourceIP s)) (syn_frame s hwaddr)
             (probe_now ev, False, w1) (probe_ticks ev) = Some (Closed, w2, r2)"
  shows "ScanAddress s ev w0 = Some (Returns None, w2)"
  using assms by (simp add: ScanAddress_def)

text \<open>
  C1: a captured frame is the expected reply exactly when its network flow is the expected
  one (the ordered pair: from the target back to the source, so the flow with the two
  addresses swapped does not match), it has a TCP layer, the destination port of that layer
  is 63323, and SYN and ACK are set. When no earlier iteration found the deadline passed or
  captured such a frame, the probe returns \<open>Open\<close> on the first frame that is one, without
  reading further, and \<open>Closed\<close> when it first finds more than three seconds elapsed; on
  \<open>Closed\<close>, \<open>ScanAddress\<close> returns nil.
\<close>

theorem probe_open_on_first_reply:
  assumes "n < length tks"
      and "\<forall>i<n. \<not> deadline_passed start False tks i \<and> \<not> qualifies netFlow (tks ! i)"
  shows
    "(is_reply netFlow packet \<longleftrightarrow>
        netLayer packet = Some netFlow \<and>
        (\<exists>tcp. tcpLayer packet = Some tcp \<and> DstPort tcp = 63323 \<and> SYN tcp \<and> ACK tcp)) \<and>
     (SourceIP s \<noteq> DestIP s \<longrightarrow>
        \<not> is_reply (NewFlow EndpointIPv4 (DestIP s) (SourceIP s))
             (packet\<lparr>netLayer := Some (NewFlow EndpointIPv4 (SourceIP s) (DestIP s))\<rparr>)) \<and>
     (\<not> deadline_passed start False tks n \<and> rx (tks ! n) = Inr packet \<and> is_reply netFlow packet \<longrightarrow>
        (\<exists>w'. probe_loop netFlow frame (start, False, w) tks
                 = Some (Open (the (tcpLayer packet)), w', drop (Suc n) tks))) \<and>
     (deadline_passed start False tks n \<longrightarrow>
        (\<exists>w'. probe_loop netFlow frame (start, False, w) tks = Some (Closed, w', drop (Suc n) tks))) \<and>
     (DestMACAddress s (arp_now ev) (arp_send ev) (arp_ticks ev) w0 = Some (Inr hwaddr, w1, r1) \<and>
      probe_loop (NewFlow EndpointIPv4 (DestIP s) (SourceIP s)) (syn_frame s hwaddr)
        (probe_now ev, False, w1) (probe_ticks ev) = Some (Closed, w2, r2) \<longrightarrow>
        ScanAddress s ev w0 = Some (Returns None, w2))"
proof -
  have swapped: "SourceIP s \<noteq> DestIP s \<longrightarrow>
        \<not> is_reply (NewFlow EndpointIPv4 (DestIP s) (SourceIP s))
             (packet\<lparr>netLayer := Some (NewFlow EndpointIPv4 (SourceIP s) (DestIP s))\<rparr>)"
    by (simp add: is_reply_def NewFlow_def)
  from probe_loop_decides [OF assms, of frame w]
  show ?thesis
    using is_reply_iff [of netFlow packet] swapped ScanAddress_closed [of s ev w0 hwaddr w1 r1 w2 r2]
    by blast
qed

lemma ex_ticks_pre:
  "\<forall>i<Suc 0. \<not> deadline_passed 2 False [ex_tick 3 (Inr ex_swapped), tk] i \<and>
      \<not> qualifies ex_flow ([ex_tick 3 (Inr ex_swapped), tk] ! i)"
  by (simp add: deadline_passed_def deadline_start_def ex_tick_def qualifies_def is_reply_def
        ex_swapped_def ex_flow_def NewFlow_def Second_def)

theorem probe_open_on_first_reply_witness:
  "(\<exists>w'. probe_loop ex_flow ex_frame (2, False, ex_world)
            [ex_tick 3 (Inr ex_swapped), ex_tick 4 (Inr ex_synack)]
          = Some (Open \<lparr>SrcPort = 22, DstPort = 63323, SYN = True, ACK = True\<rparr>, w', [])) \<and>
   (\<exists>w'. probe_loop ex_flow ex_frame (2, False, ex_world)
            [ex_tick 3 (Inr ex_swapped), ex_tick (4 * Second) (Inr ex_synack)]
          = Some (Closed, w', [])) \<and>
   \<not> is_reply (NewFlow EndpointIPv4 (DestIP ex_scanner) (SourceIP ex_scanner)) ex_swapped \<and>
   ScanAddress ex_scanner ex_silent_env ex_world
     = Some (Returns None,
             ex_world\<lparr>written := [(arp_request ex_scanner [10, 0, 0, 5], None),
                                    (syn_frame ex_scanner [2, 0, 0, 0, 0, 5], None)]\<rparr>)"
proof -
  have a: "\<not> deadline_passed 2 False [ex_tick 3 (Inr ex_swapped), ex_tick 4 (Inr ex_synack)] 1"
    by (simp add: deadline_passed_def deadline_start_def ex_tick_def Second_def)
  have b: "is_reply ex_flow ex_synack"
    by (simp add: is_reply_def ex_synack_def ex_flow_def NewFlow_def)
  have c: "deadline_passed 2 False [ex_tick 3 (Inr ex_swapped), ex_tick (4 * Second) (Inr ex_synack)] 1"
    by (simp add: deadline_passed_def deadline_start_def ex_tick_def Second_def)
  have d: "SourceIP ex_scanner \<noteq> DestIP ex_scanner" by (simp add: ex_scanner_def)
  have e: "ex_swapped\<lparr>netLayer := Some (NewFlow EndpointIPv4 (SourceIP ex_scanner) (DestIP ex_scanner))\<rparr>
             = ex_swapped"
    by (simp add: ex_swapped_def ex_scanner_def NewFlow_def)
  have f: "DestMACAddress ex_scanner (arp_now ex_silent_env) (arp_send ex_silent_env)
             (arp_ticks ex_silent_env) ex_world
           = Some (Inr [2, 0, 0, 0, 0, 5],
                   ex_world\<lparr>written := [(arp_request ex_scanner [10, 0, 0, 5], None)]\<rparr>, [])"
    by (simp add: DestMACAddress_def ex_silent_env_def ex_banner_env_def ex_scanner_def
          SendPacket_def ex_world_def ex_arp_reply_def IP_Equal_def Second_def Let_def)
  have g: "probe_loop (NewFlow EndpointIPv4 (DestIP ex_scanner) (SourceIP ex_scanner))
             (syn_frame ex_scanner [2, 0, 0, 0, 0, 5])
             (probe_now ex_silent_env, False,
              ex_world\<lparr>written := [(arp_request ex_scanner [10, 0, 0, 5], None)]\<rparr>)
             (probe_ticks ex_silent_env)
           = Some (Closed,
                   ex_world\<lparr>written := [(arp_request ex_scanner [10, 0, 0, 5], None),
                                          (syn_frame ex_scanner [2, 0, 0, 0, 0, 5], None)]\<rparr>, [])"
    by (simp add: ex_silent_env_def ex_banner_env_def ex_tick_def send_once_def SendPacket_def
          ex_world_def Second_def)
  show ?thesis
    using probe_open_on_first_reply
            [of 1 "[ex_tick 3 (Inr ex_swapped), ex_tick 4 (Inr ex_synack)]" 2 ex_flow
                ex_synack ex_scanner ex_frame ex_world ex_silent_env ex_world
                "[2, 0, 0, 0, 0, 5]"
                "ex_world\<lparr>written := [(arp_request ex_scanner [10, 0, 0, 5], None)]\<rparr>" "[]"
                "ex_world\<lparr>written := [(arp_request ex_scanner [10, 0, 0, 5], None),
                                       (syn_frame ex_scanner [2, 0, 0, 0, 0, 5], None)]\<rparr>" "[]"]
          probe_open_on_first_reply
            [of 1 "[ex_tick 3 (Inr ex_swapped), ex_tick (4 * Second) (Inr ex_synack)]" 2 ex_flow
                ex_swapped ex_scanner ex_frame ex_world]
          ex_ticks_pre a b c d e f g
    by (simp add: ex_tick_def ex_synack_def del: probe_loop.simps)
qed

section \<open>What a probe writes and prints\<close>

lemma send_once_eq:
  "send_once fr tk (start, sent, w) =
     (if sent then (start, True, w)
      else (t_send tk, send_res tk = WriteOk,
            w\<lparr>written := written w @ attempts fr [tk],
              stdout := stdout w @ map send_error_line (send_errors [tk])\<rparr>))"
  by (cases "send_res tk") (simp_all add: send_once_def SendPacket_def)

lemma probe_loop_ConsE:
  assumes "probe_loop nf fr (start, sent, w) (tk # tks) = Some (v, w', rest)"
  obtains
    (closed) s1 b1 where
      "send_once fr tk (start, sent, w) = (s1, b1, w')" "t_check tk - s1 > Second * 3"
      "v = Closed" "rest = tks"
  | (opened) s1 b1 packet where
      "send_once fr tk (start, sent, w) = (s1, b1, w')" "\<not> t_check tk - s1 > Second * 3"
      "rx tk = Inr packet" "is_reply nf packet" "v = Open (the (tcpLayer packet))" "rest = tks"
  | (skipped) s1 b1 w1 where
      "send_once fr tk (start, sent, w) = (s1, b1, w1)" "\<not> t_check tk - s1 > Second * 3"
      "\<not> qualifies nf tk"
      "probe_loop nf fr (s1, b1, w1\<lparr>stdout := stdout w1 @ read_errors tk\<rparr>) tks = Some (v, w', rest)"
proof -
  obtain s1 b1 w1 where so: "send_once fr tk (start, sent, w) = (s1, b1, w1)"
    by (cases "send_once fr tk (start, sent, w)") auto
  show thesis
  proof (cases "t_check tk - s1 > Second * 3")
    case True
    with assms so show thesis by (intro closed [of s1 b1]) auto
  next
    case late: False
    show thesis
    proof (cases "rx tk")
      case (Inl err)
      with assms so late show thesis
        by (intro skipped [of s1 b1 w1]) (auto simp: qualifies_def read_errors_def split: if_splits)
    next
      case (Inr packet)
      show thesis
      proof (cases "is_reply nf packet")
        case True
        with assms so late Inr show thesis by (intro opened [of s1 b1 packet]) auto
      next
        case False
        with assms so late Inr show thesis
          by (intro skipped [of s1 b1 w1]) (auto simp: qualifies_def read_errors_def)
      qed
    qed
  qed
qed

lemma probe_loop_rest:
  "probe_loop nf fr (start, sent, w) tks = Some (v, w', rest) \<Longrightarrow>
     length rest < length tks \<and> rest = drop (length tks - length rest) tks"
proof (induction tks arbitrary: start sent w)
  case Nil
  then show ?case by simp
next
  case (Cons tk tks)
  from Cons.prems show ?case
  proof (cases rule: probe_loop_ConsE)
    case (closed s1 b1)
    then show ?thesis by simp
  next
    case (opened s1 b1 packet)
    then show ?thesis by simp
  next
    case (skipped s1 b1 w1)
    from Cons.IH [OF skipped(4)]
    have l: "length rest < length tks" and d: "rest = drop (length tks - length rest) tks"
      by simp_all
    from l have "Suc (length tks) - length rest = Suc (length tks - length rest)" by simp
    with l d show ?thesis by simp
  qed
qed

lemma take_decided:
  "length rest < length tks \<Longrightarrow>
   take (length (tk # tks) - length rest) (tk # tks) = tk # take (length tks - length rest) tks"
  by (simp add: Suc_diff_le)

lemma attempts_Cons:
  "attempts fr (tk # tks) = attempts fr [tk] @ (if send_res tk = WriteOk then [] else attempts fr tks)"
  by (cases "send_res tk") simp_all

lemma send_errors_Cons:
  "send_errors (tk # tks) = send_errors [tk] @ (if send_res tk = WriteOk then [] else send_errors tks)"
  by (cases "send_res tk") simp_all

lemma probe_loop_written:
  "probe_loop nf fr (start, sent, w) tks = Some (v, w', rest) \<Longrightarrow>
     written w' = written w @
       (if sent then [] else attempts fr (take (length tks - length rest) tks))"
proof (induction tks arbitrary: start sent w)
  case Nil
  then show ?case by simp
next
  case (Cons tk tks)
  from Cons.prems show ?case
  proof (cases rule: probe_loop_ConsE)
    case (closed s1 b1)
    then show ?thesis by (auto simp: send_once_eq split: if_splits)
  next
    case (opened s1 b1 packet)
    then show ?thesis by (auto simp: send_once_eq split: if_splits)
  next
    case (skipped s1 b1 w1)
    have l: "length rest < length tks" using probe_loop_rest [OF skipped(4)] by simp
    from Cons.IH [OF skipped(4)]
    have "written w' = written w1 @
        (if b1 then [] else attempts fr (take (length tks - length rest) tks))"
      by simp
    with skipped(1) show ?thesis
      unfolding take_decided [OF l] attempts_Cons [of fr tk "take (length tks - length rest) tks"]
      by (auto simp: send_once_eq split: if_splits)
  qed
qed

lemma is_send_error_line_simps [simp]:
  "is_send_error_line (send_error_line err)" "\<not> is_send_error_line (read_error_line err)"
  by (simp_all add: is_send_error_line_def send_error_line_def read_error_line_def)

lemma filter_send_error_lines [simp]:
  "filter is_send_error_line (map send_error_line errs) = map send_error_line errs"
  "filter is_send_error_line (read_errors tk) = []"
  by (induction errs) (simp_all add: read_errors_def split: sum.splits)

lemma probe_loop_send_errors:
  "probe_loop nf fr (start, sent, w) tks = Some (v, w', rest) \<Longrightarrow>
     filter is_send_error_line (stdout w') = filter is_send_error_line (stdout w) @
       (if sent then []
        else map send_error_line (send_errors (take (length tks - length rest) tks)))"
proof (induction tks arbitrary: start sent w)
  case Nil
  then show ?case by simp
next
  case (Cons tk tks)
  from Cons.prems show ?case
  proof (cases rule: probe_loop_ConsE)
    case (closed s1 b1)
    then show ?thesis by (auto simp: send_once_eq split: if_splits)
  next
    case (opened s1 b1 packet)
    then show ?thesis by (auto simp: send_once_eq split: if_splits)
  next
    case (skipped s1 b1 w1)
    have l: "length rest < length tks" using probe_loop_rest [OF skipped(4)] by simp
    from Cons.IH [OF skipped(4)]
    have "filter is_send_error_line (stdout w') = filter is_send_error_line (stdout w1) @
        (if b1 then []
         else map send_error_line (send_errors (take (length tks - length rest) tks)))"
      by simp
    with skipped(1) show ?thesis
      unfolding take_decided [OF l] send_errors_Cons [of tk "take (length tks - length rest) tks"]
      by (auto simp: send_once_eq split: if_splits)
  qed
qed

lemma is_report_simps [simp]:
  "\<not> is_report (send_error_line err)" "\<not> is_report (read_error_line err)"
  "is_report (report_line s tcp data)"
  by (simp_all add: is_report_def send_error_line_def read_error_line_def report_format_def
        report_line_def)

lemma filter_report_logs [simp]:
  "filter is_report (map send_error_line errs) = []"
  "filter is_report (read_errors tk) = []"
  by (induction errs) (simp_all add: read_errors_def split: sum.splits)

lemma probe_loop_quiet:
  "probe_loop nf fr (start, sent, w) tks = Some (v, w', rest) \<Longrightarrow>
     filter is_report (stdout w') = filter is_report (stdout w) \<and>
     opened w' = opened w \<and> closed w' = closed w \<and> wait w' = wait w"
proof (induction tks arbitrary: start sent w)
  case Nil
  then show ?case by simp
next
  case (Cons tk tks)
  from Cons.prems show ?case
  proof (cases rule: probe_loop_ConsE)
    case (closed s1 b1)
    then show ?thesis by (auto simp: send_once_eq split: if_splits)
  next
    case (opened s1 b1 packet)
    then show ?thesis by (auto simp: send_once_eq split: if_splits)
  next
    case (skipped s1 b1 w1)
    from Cons.IH [OF skipped(4)] skipped(1) show ?thesis
      by (auto simp: send_once_eq split: if_splits)
  qed
qed

lemma probe_loop_closed_iff:
  "probe_loop nf fr (start, sent, w) tks = Some (v, w', rest) \<Longrightarrow>
     (v = Closed) = deadline_passed start sent tks (length tks - length rest - 1)"
proof (induction tks arbitrary: start sent w)
  case Nil
  then show ?case by simp
next
  case (Cons tk tks)
  from Cons.prems show ?case
  proof (cases rule: probe_loop_ConsE)
    case (closed s1 b1)
    then show ?thesis
      using send_once_start [of fr tk start sent w tks]
      by (simp add: deadline_passed_def mult.commute)
  next
    case (opened s1 b1 packet)
    then show ?thesis
      using send_once_start [of fr tk start sent w tks]
      by (simp add: deadline_passed_def mult.commute)
  next
    case (skipped s1 b1 w1)
    have l: "length rest < length tks" using probe_loop_rest [OF skipped(4)] by simp
    then have i: "length (tk # tks) - length rest - 1 = Suc (length tks - length rest - 1)"
      by simp
    have "deadline_passed s1 b1 tks (length tks - length rest - 1)
        = deadline_passed start sent (tk # tks) (Suc (length tks - length rest - 1))"
      using send_once_shift [OF skipped(1), of tks] by (simp add: deadline_passed_def)
    with Cons.IH [OF skipped(4)] show ?thesis unfolding i by simp
  qed
qed

lemma attempts_shape:
  "\<exists>errs. attempts fr tks =
      map (\<lambda>err. (fr, Some err)) errs @
      (if WriteOk \<in> send_res ` set tks then [(fr, None)] else [])"
proof (induction tks)
  case Nil
  show ?case by simp
next
  case (Cons tk tks)
  then obtain errs where e: "attempts fr tks =
      map (\<lambda>err. (fr, Some err)) errs @
      (if WriteOk \<in> send_res ` set tks then [(fr, None)] else [])" by blast
  show ?case
  proof (cases "send_res tk")
    case (SerializeFails err)
    with e show ?thesis by (intro exI [of _ errs]) auto
  next
    case (WriteFails err)
    with e show ?thesis by (intro exI [of _ "err # errs"]) auto
  next
    case WriteOk
    then show ?thesis by (intro exI [of _ "[]"]) (simp add: image_iff)
  qed
qed

lemma ex_retry_run:
  "probe_loop ex_flow ex_frame (0, False, ex_world)
     [ex_tick_unsent 0, ex_tick (5 * Second) (Inl NextErrorTimeoutExpired),
      ex_tick (9 * Second) (Inl NextErrorTimeoutExpired)]
   = Some (Closed,
           ex_world\<lparr>stdout := [send_error_line (OtherError ''send failed'')],
                    written := [(ex_frame, Some (OtherError ''send failed'')), (ex_frame, None)]\<rparr>,
           [])"
  by (simp add: ex_tick_def ex_tick_unsent_def send_once_def SendPacket_def ex_world_def
        Second_def)

text \<open>
  C5 as amended: a probe hands the SYN frame to the capture channel once in each iteration
  until the first write that succeeds, and never after it: the writes are failed ones
  followed by at most one that succeeded. Each failed send prints one line. The loop goes
  on and returns \<open>Closed\<close> exactly when its last iteration finds the deadline passed, the
  deadline being measured from the last send.
\<close>

theorem syn_written_until_sent:
  assumes "probe_loop netFlow frame (start, False, w) tks = Some (v, w', rest)"
  shows
    "written w' = written w @ attempts frame (take (length tks - length rest) tks) \<and>
     (\<exists>errs. attempts frame (take (length tks - length rest) tks) =
        map (\<lambda>err. (frame, Some err)) errs @
        (if WriteOk \<in> send_res ` set (take (length tks - length rest) tks)
         then [(frame, None)] else [])) \<and>
     filter is_send_error_line (stdout w') =
       filter is_send_error_line (stdout w) @
       map send_error_line (send_errors (take (length tks - length rest) tks)) \<and>
     (v = Closed) = deadline_passed start False tks (length tks - length rest - 1)"
  using probe_loop_written [OF assms] probe_loop_send_errors [OF assms]
        probe_loop_closed_iff [OF assms]
        attempts_shape [of frame "take (length tks - length rest) tks"]
  by simp

theorem syn_written_until_sent_witness:
  "written (ex_world\<lparr>stdout := [send_error_line (OtherError ''send failed'')],
             written := [(ex_frame, Some (OtherError ''send failed'')), (ex_frame, None)]\<rparr>)
     = written ex_world @
       attempts ex_frame
         [ex_tick_unsent 0, ex_tick (5 * Second) (Inl NextErrorTimeoutExpired),
          ex_tick (9 * Second) (Inl NextErrorTimeoutExpired)] \<and>
   deadline_passed 0 False
     [ex_tick_unsent 0, ex_tick (5 * Second) (Inl NextErrorTimeoutExpired),
      ex_tick (9 * Second) (Inl NextErrorTimeoutExpired)] 2"
  using syn_written_until_sent [OF ex_retry_run] by (simp add: numeral_2_eq_2)

text \<open>
  C5 as stated fails: the first send fails, the second iteration sends again, and the
  frame has been written twice when the probe returns.
\<close>

theorem syn_written_once_counterexample:
  "probe_loop ex_flow ex_frame (0, False, ex_world)
     [ex_tick_unsent 0, ex_tick (5 * Second) (Inl NextErrorTimeoutExpired),
      ex_tick (9 * Second) (Inl NextErrorTimeoutExpired)]
   = Some (Closed,
           ex_world\<lparr>stdout := [send_error_line (OtherError ''send failed'')],
                    written := [(ex_frame, Some (OtherError ''send failed'')), (ex_frame, None)]\<rparr>,
           []) \<and>
   \<not> length (written
         (ex_world\<lparr>stdout := [send_error_line (OtherError ''send failed'')],
                   written := [(ex_frame, Some (OtherError ''send failed'')),
                               (ex_frame, None)]\<rparr>)) \<le> 1"
  using ex_retry_run by simp

section \<open>Properties of the resolution\<close>

lemma arp_wait_skip:
  "\<forall>tk \<in> set pre. arp_skipped arpDst start tk \<Longrightarrow>
   arp_wait arpDst start (pre @ rest) = arp_wait arpDst start rest"
proof (induction pre)
  case Nil
  show ?case by simp
next
  case (Cons tk pre)
  obtain now r where tk: "tk = (now, r)" by (cases tk)
  from Cons.prems have sk: "arp_skipped arpDst start (now, r)" by (simp add: tk)
  then have "arp_wait arpDst start ((now, r) # pre @ rest) = arp_wait arpDst start (pre @ rest)"
    by (cases r)
       (auto simp: arp_skipped_def arp_answers_def mult.commute split: option.splits)
  with Cons show ?case by (simp add: tk)
qed

lemma arp_wait_waiting:
  "\<forall>tk \<in> set pre. arp_skipped arpDst start tk \<Longrightarrow> arp_wait arpDst start pre = None"
  using arp_wait_skip [of pre arpDst start "[]"] by simp

lemma DestMACAddress_sent:
  "DestMACAddress s start WriteOk ticks w =
     (case arp_wait (case Gateway s of Some gw \<Rightarrow> gw | None \<Rightarrow> DestIP s) start ticks of
        None \<Rightarrow> None
      | Some (res, rest) \<Rightarrow>
          Some (res,
                w\<lparr>written := written w @
                   [(arp_request s (case Gateway s of Some gw \<Rightarrow> gw | None \<Rightarrow> DestIP s), None)]\<rparr>,
                rest))"
  by (simp add: DestMACAddress_def SendPacket_def Let_def)

lemma DestMACAddress_unsent:
  "DestMACAddress s start (SerializeFails err) ticks w = Some (Inl err, w, ticks)"
  "DestMACAddress s start (WriteFails err) ticks w =
     Some (Inl err,
           w\<lparr>written := written w @
              [(arp_request s (case Gateway s of Some gw \<Rightarrow> gw | None \<Rightarrow> DestIP s), Some err)]\<rparr>,
           ticks)"
  by (simp_all add: DestMACAddress_def SendPacket_def Let_def)

lemma arp_wait_decides:
  assumes "\<forall>tk \<in> set pre. arp_skipped arpDst start tk"
  shows "t - start > 3 * Second \<Longrightarrow>
           arp_wait arpDst start (pre @ (t, r) # post) = Some (Inl NoArpReply, post)"
    and "t - start \<le> 3 * Second \<Longrightarrow> err \<noteq> NextErrorTimeoutExpired \<Longrightarrow>
           arp_wait arpDst start (pre @ (t, Inl err) # post) = Some (Inl err, post)"
    and "t - start \<le> 3 * Second \<Longrightarrow> arpLayer packet = Some arp \<Longrightarrow>
         IP_Equal (SourceProtAddress arp) arpDst \<Longrightarrow>
           arp_wait arpDst start (pre @ (t, Inr packet) # post)
             = Some (Inr (SourceHwAddress arp), post)"
    and "t - start \<le> 3 * Second \<Longrightarrow>
           arp_wait arpDst start (pre @ (t, Inl NextErrorTimeoutExpired) # post)
             = arp_wait arpDst start post"
  unfolding arp_wait_skip [OF assms] by (simp_all add: mult.commute)

text \<open>
  C2 as amended: \<open>DestMACAddress\<close> makes one send of a broadcast request for the gateway
  when there is one and for the destination otherwise. When the send fails it fails at
  once with that error and reads nothing. Otherwise, while it only meets read timeouts and
  frames that are not an ARP layer from the address asked for, it keeps waiting; it returns
  the sender hardware address of the first frame that is one, leaving the later frames
  unread; it fails with \<open>NoArpReply\<close> when an iteration finds more than three seconds
  elapsed, and with the read error when a read fails for another reason than a timeout.
\<close>

theorem resolve_first_answer:
  assumes "\<forall>tk \<in> set pre. arp_skipped arpDst start tk"
      and "arpDst = (case Gateway s of Some gw \<Rightarrow> gw | None \<Rightarrow> DestIP s)"
  shows
    "(\<exists>eth arp. arp_request s arpDst = [EthernetLayer eth, ARPLayer arp] \<and>
        DstMAC eth = [0xff, 0xff, 0xff, 0xff, 0xff, 0xff] \<and>
        Operation arp = ARPRequest \<and> DstProtAddress arp = arpDst) \<and>
     DestMACAddress s start (SerializeFails err) ticks w = Some (Inl err, w, ticks) \<and>
     DestMACAddress s start (WriteFails err) ticks w
       = Some (Inl err, w\<lparr>written := written w @ [(arp_request s arpDst, Some err)]\<rparr>, ticks) \<and>
     DestMACAddress s start WriteOk pre w = None \<and>
     (t - start \<le> 3 * Second \<and> arpLayer packet = Some arp \<and>
      IP_Equal (SourceProtAddress arp) arpDst \<longrightarrow>
        DestMACAddress s start WriteOk (pre @ (t, Inr packet) # post) w
          = Some (Inr (SourceHwAddress arp),
                  w\<lparr>written := written w @ [(arp_request s arpDst, None)]\<rparr>, post)) \<and>
     (t - start > 3 * Second \<longrightarrow>
        DestMACAddress s start WriteOk (pre @ (t, r) # post) w
          = Some (Inl NoArpReply, w\<lparr>written := written w @ [(arp_request s arpDst, None)]\<rparr>,
                  post)) \<and>
     (t - start \<le> 3 * Second \<and> err \<noteq> NextErrorTimeoutExpired \<longrightarrow>
        DestMACAddress s start WriteOk (pre @ (t, Inl err) # post) w
          = Some (Inl err, w\<lparr>written := written w @ [(arp_request s arpDst, None)]\<rparr>, post))"
proof -
  have req: "\<exists>eth arp. arp_request s arpDst = [EthernetLayer eth, ARPLayer arp] \<and>
        DstMAC eth = [0xff, 0xff, 0xff, 0xff, 0xff, 0xff] \<and>
        Operation arp = ARPRequest \<and> DstProtAddress arp = arpDst"
    by (simp add: arp_request_def)
  note d = arp_wait_decides [OF assms(1)] arp_wait_waiting [OF assms(1)]
  show ?thesis
    using req d
    unfolding DestMACAddress_sent DestMACAddress_unsent assms(2) [symmetric]
    by simp
qed

theorem resolve_first_answer_witness:
  "DestMACAddress ex_routed_scanner 0 WriteOk
      [(1, Inl NextErrorTimeoutExpired), (2, Inr ex_other_arp), (3, Inr ex_gateway_arp),
       (4, Inr ex_other_arp)] ex_world
     = Some (Inr [2, 0, 0, 0, 0, 0xfe],
             ex_world\<lparr>written := [(arp_request ex_routed_scanner [10, 0, 0, 1], None)]\<rparr>,
             [(4, Inr ex_other_arp)]) \<and>
   DestMACAddress ex_routed_scanner 0 WriteOk
      [(1, Inl NextErrorTimeoutExpired), (2, Inr ex_other_arp), (4 * Second, Inr ex_gateway_arp)]
      ex_world
     = Some (Inl NoArpReply,
             ex_world\<lparr>written := [(arp_request ex_routed_scanner [10, 0, 0, 1], None)]\<rparr>, [])"
proof -
  have pre: "\<forall>tk \<in> set [(1, Inl NextErrorTimeoutExpired), (2, Inr ex_other_arp)].
               arp_skipped [10, 0, 0, 1] 0 tk"
    by (simp add: arp_skipped_def arp_answers_def ex_other_arp_def IP_Equal_def Second_def)
  have gw: "[10, 0, 0, 1] = (case Gateway ex_routed_scanner of Some gw \<Rightarrow> gw
                              | None \<Rightarrow> DestIP ex_routed_scanner)"
    by (simp add: ex_routed_scanner_def)
  have ans: "arpLayer ex_gateway_arp = Some (the (arpLayer ex_gateway_arp))"
            "IP_Equal (SourceProtAddress (the (arpLayer ex_gateway_arp))) [10, 0, 0, 1]"
            "SourceHwAddress (the (arpLayer ex_gateway_arp)) = [2, 0, 0, 0, 0, 0xfe]"
    by (simp_all add: ex_gateway_arp_def IP_Equal_def)
  show ?thesis
    using resolve_first_answer [OF pre gw, of _ _ ex_world 3 ex_gateway_arp
            "the (arpLayer ex_gateway_arp)" "[(4, Inr ex_other_arp)]"]
          resolve_first_answer [OF pre gw, of _ _ ex_world "4 * Second" _ _ "[]"
            "Inr ex_gateway_arp"]
          ans
    by (simp add: ex_world_def Second_def)
qed

text \<open>
  C2 as stated fails: no matching reply arrives, and the failure is the error of the read,
  not the resolution timeout.
\<close>

theorem resolve_timeout_iff_counterexample:
  "DestMACAddress ex_scanner 0 WriteOk [(1, Inl (OtherError ''read failed''))] ex_world
     = Some (Inl (OtherError ''read failed''),
             ex_world\<lparr>written := [(arp_request ex_scanner [10, 0, 0, 5], None)]\<rparr>, []) \<and>
   OtherError ''read failed'' \<noteq> NoArpReply"
  by (simp add: DestMACAddress_def SendPacket_def Let_def ex_scanner_def ex_world_def Second_def)

section \<open>Failed reads\<close>

lemma send_once_world:
  "fst (send_once fr tk (start, sent, w)) = fst (send_once fr tk (start, sent, w2)) \<and>
   fst (snd (send_once fr tk (start, sent, w))) = fst (snd (send_once fr tk (start, sent, w2)))"
  by (simp add: send_once_eq)

lemma probe_loop_verdict_world:
  "map_option fst (probe_loop nf fr (start, sent, w) tks)
     = map_option fst (probe_loop nf fr (start, sent, w2) tks)"
proof (induction tks arbitrary: start sent w w2)
  case Nil
  show ?case by simp
next
  case (Cons tk tks)
  obtain s1 b1 w1 where a: "send_once fr tk (start, sent, w) = (s1, b1, w1)"
    by (cases "send_once fr tk (start, sent, w)") auto
  obtain s2 b2 w3 where b: "send_once fr tk (start, sent, w2) = (s2, b2, w3)"
    by (cases "send_once fr tk (start, sent, w2)") auto
  from send_once_world [of fr tk start sent w w2] a b have e: "s2 = s1" "b2 = b1" by simp_all
  show ?case
  proof (cases "rx tk")
    case (Inl err)
    then show ?thesis
      using a b e Cons.IH [of s1 b1 w1 w3]
            Cons.IH [of s1 b1 "w1\<lparr>stdout := stdout w1 @ [read_error_line err]\<rparr>"
                              "w3\<lparr>stdout := stdout w3 @ [read_error_line err]\<rparr>"]
      by simp
  next
    case (Inr packet)
    then show ?thesis using a b e Cons.IH [of s1 b1 w1 w3] by simp
  qed
qed

lemma send_once_as_timeout [simp]:
  "send_once fr (as_timeout tk) st = send_once fr tk st"
  by (cases st) (simp add: send_once_eq as_timeout_def)

lemma probe_loop_as_timeout:
  "map_option fst (probe_loop nf fr (start, sent, w) (map as_timeout tks))
     = map_option fst (probe_loop nf fr (start, sent, w) tks)"
proof (induction tks arbitrary: start sent w)
  case Nil
  show ?case by simp
next
  case (Cons tk tks)
  obtain s1 b1 w1 where a: "send_once fr tk (start, sent, w) = (s1, b1, w1)"
    by (cases "send_once fr tk (start, sent, w)") auto
  have t: "t_check (as_timeout tk) = t_check tk" by (simp add: as_timeout_def)
  show ?case
  proof (cases "rx tk")
    case (Inl err)
    then have r: "rx (as_timeout tk) = Inl NextErrorTimeoutExpired" by (simp add: as_timeout_def)
    show ?thesis
      using a t r Inl Cons.IH [of s1 b1 w1]
            Cons.IH [of s1 b1 "w1\<lparr>stdout := stdout w1 @ [read_error_line err]\<rparr>"]
            probe_loop_verdict_world [of nf fr s1 b1 w1 "map as_timeout tks"
               "w1\<lparr>stdout := stdout w1 @ [read_error_line err]\<rparr>"]
      by simp
  next
    case (Inr packet)
    then have r: "rx (as_timeout tk) = Inr packet" by (simp add: as_timeout_def)
    show ?thesis using a t r Inr Cons.IH [of s1 b1 w1] by simp
  qed
qed

lemma is_read_error_line_simps [simp]:
  "\<not> is_read_error_line (send_error_line err)" "is_read_error_line (read_error_line err)"
  by (simp_all add: is_read_error_line_def send_error_line_def read_error_line_def)

lemma filter_read_error_lines [simp]:
  "filter is_read_error_line (map send_error_line errs) = []"
  "filter is_read_error_line (read_errors tk) = read_errors tk"
  by (induction errs) (simp_all add: read_errors_def split: sum.splits)

lemma take_before_decided:
  "length rest < length tks \<Longrightarrow>
   take (length (tk # tks) - length rest - 1) (tk # tks)
     = tk # take (length tks - length rest - 1) tks"
proof -
  assume "length rest < length tks"
  then have "length (tk # tks) - length rest - 1 = Suc (length tks - length rest - 1)" by simp
  then show ?thesis by simp
qed

lemma probe_loop_read_errors:
  "probe_loop nf fr (start, sent, w) tks = Some (v, w', rest) \<Longrightarrow>
     filter is_read_error_line (stdout w') = filter is_read_error_line (stdout w) @
       concat (map read_errors (take (length tks - length rest - 1) tks))"
proof (induction tks arbitrary: start sent w)
  case Nil
  then show ?case by simp
next
  case (Cons tk tks)
  from Cons.prems show ?case
  proof (cases rule: probe_loop_ConsE)
    case (closed s1 b1)
    then show ?thesis by (auto simp: send_once_eq split: if_splits)
  next
    case (opened s1 b1 packet)
    then show ?thesis by (auto simp: send_once_eq split: if_splits)
  next
    case (skipped s1 b1 w1)
    have l: "length rest < length tks" using probe_loop_rest [OF skipped(4)] by simp
    from Cons.IH [OF skipped(4)] skipped(1) show ?thesis
      unfolding take_before_decided [OF l]
      by (auto simp: send_once_eq split: if_splits)
  qed
qed

lemma ScanAddress_unresolved:
  "DestMACAddress s (arp_now ev) (arp_send ev) (arp_ticks ev) w = Some (Inl err, w1, r1) \<Longrightarrow>
   ScanAddress s ev w = Some (Returns (Some err), w1)"
  by (simp add: ScanAddress_def)

text \<open>
  C6 as amended: in the resolution a read that fails for another reason than a timeout
  ends \<open>DestMACAddress\<close> and \<open>ScanAddress\<close> with that error, and a read that times out
  only leads to the next iteration and its deadline check. In the probe a failed read never
  ends the stage: the verdict is the one the probe reaches when every failed read is a
  timeout instead, and each read that failed before the deciding iteration has printed one
  line.
\<close>

theorem read_failure_ends_resolution_not_probe:
  assumes "\<forall>tk \<in> set pre. arp_skipped arpDst start tk"
      and "arpDst = (case Gateway s of Some gw \<Rightarrow> gw | None \<Rightarrow> DestIP s)"
      and "t - start \<le> 3 * Second"
  shows
    "(err \<noteq> NextErrorTimeoutExpired \<longrightarrow>
        DestMACAddress s start WriteOk (pre @ (t, Inl err) # post) w
          = Some (Inl err, w\<lparr>written := written w @ [(arp_request s arpDst, None)]\<rparr>, post) \<and>
        ScanAddress s
            \<lparr>arp_now = start, arp_send = WriteOk, arp_ticks = pre @ (t, Inl err) # post,
             probe_now = pn, probe_ticks = pt, dial = d\<rparr> w
          = Some (Returns (Some err),
                  w\<lparr>written := written w @ [(arp_request s arpDst, None)]\<rparr>)) \<and>
     arp_wait arpDst start (pre @ (t, Inl NextErrorTimeoutExpired) # post)
       = arp_wait arpDst start post \<and>
     map_option fst (probe_loop netFlow frame (start', sent, w) (map as_timeout tks))
       = map_option fst (probe_loop netFlow frame (start', sent, w) tks) \<and>
     (probe_loop netFlow frame (start', sent, w) tks = Some (v, w', rest) \<longrightarrow>
        filter is_read_error_line (stdout w') =
          filter is_read_error_line (stdout w) @
          concat (map read_errors (take (length tks - length rest - 1) tks)))"
proof -
  have res: "err \<noteq> NextErrorTimeoutExpired \<Longrightarrow>
        DestMACAddress s start WriteOk (pre @ (t, Inl err) # post) w
          = Some (Inl err, w\<lparr>written := written w @ [(arp_request s arpDst, None)]\<rparr>, post)"
    using arp_wait_decides(2) [OF assms(1) assms(3), of err post]
    unfolding DestMACAddress_sent assms(2) [symmetric] by simp
  have scan: "err \<noteq> NextErrorTimeoutExpired \<Longrightarrow>
        ScanAddress s
            \<lparr>arp_now = start, arp_send = WriteOk, arp_ticks = pre @ (t, Inl err) # post,
             probe_now = pn, probe_ticks = pt, dial = d\<rparr> w
          = Some (Returns (Some err),
                  w\<lparr>written := written w @ [(arp_request s arpDst, None)]\<rparr>)"
    using res by (intro ScanAddress_unresolved [where ?r1.0 = post]) simp
  show ?thesis
    using res scan arp_wait_decides(4) [OF assms(1) assms(3), of post]
          probe_loop_as_timeout [of netFlow frame start' sent w tks]
          probe_loop_read_errors [of netFlow frame start' sent w tks v w' rest]
    by blast
qed

theorem read_failure_ends_resolution_not_probe_witness:
  "DestMACAddress ex_scanner 0 WriteOk
      [(1, Inr ex_other_arp), (2, Inl (OtherError ''read failed'')), (3, Inr ex_arp_reply)]
      ex_world
     = Some (Inl (OtherError ''read failed''),
             ex_world\<lparr>written := [(arp_request ex_scanner [10, 0, 0, 5], None)]\<rparr>,
             [(3, Inr ex_arp_reply)]) \<and>
   arp_wait [10, 0, 0, 5] 0
      [(1, Inr ex_other_arp), (2, Inl NextErrorTimeoutExpired), (3, Inr ex_arp_reply)]
     = arp_wait [10, 0, 0, 5] 0 [(3, Inr ex_arp_reply)]"
proof -
  have pre: "\<forall>tk \<in> set [(1, Inr ex_other_arp)]. arp_skipped [10, 0, 0, 5] 0 tk"
    by (simp add: arp_skipped_def arp_answers_def ex_other_arp_def IP_Equal_def Second_def)
  have tgt: "[10, 0, 0, 5] = (case Gateway ex_scanner of Some gw \<Rightarrow> gw
                               | None \<Rightarrow> DestIP ex_scanner)"
    by (simp add: ex_scanner_def)
  have t: "(2::int) - 0 \<le> 3 * Second" by (simp add: Second_def)
  show ?thesis
    using read_failure_ends_resolution_not_probe [OF pre tgt t,
            of "OtherError ''read failed''" "[(3, Inr ex_arp_reply)]" ex_world]
    by (simp add: ex_world_def)
qed

lemma ex_read_failure_run:
  "ScanAddress ex_scanner ex_read_failure_env ex_world
     = Some (Returns None,
             ex_world\<lparr>stdout := [read_error_line (OtherError ''read failed''),
                                  (report_format,
                                   [AString ''10.0.0.5'', AUint16 22,
                                    AString ''SSH-2.0-OpenSSH''])],
                       written := [(arp_request ex_scanner [10, 0, 0, 5], None),
                                   (syn_frame ex_scanner [2, 0, 0, 0, 0, 5], None)]\<rparr>)"
  by (simp add: ScanAddress_def DestMACAddress_def SendPacket_def Let_def ex_read_failure_env_def
        ex_banner_env_def ex_scanner_def ex_world_def ex_arp_reply_def IP_Equal_def Second_def
        ex_tick_def send_once_def ex_synack_def is_reply_def NewFlow_def report_def
        read_banner_def ReadString_def Trim_def report_line_def IP_String_def dec.simps)

text \<open>
  C6 as stated fails in the probe: the first read fails, the loop goes on, the second
  read captures the SYN+ACK, and the scan ends with a report and a nil error.
\<close>

theorem probe_read_failure_counterexample:
  "ScanAddress ex_scanner ex_read_failure_env ex_world
     = Some (Returns None,
             ex_world\<lparr>stdout := [read_error_line (OtherError ''read failed''),
                                  (report_format,
                                   [AString ''10.0.0.5'', AUint16 22,
                                    AString ''SSH-2.0-OpenSSH''])],
                       written := [(arp_request ex_scanner [10, 0, 0, 5], None),
                                   (syn_frame ex_scanner [2, 0, 0, 0, 0, 5], None)]\<rparr>) \<and>
   rx (probe_ticks ex_read_failure_env ! 0) = Inl (OtherError ''read failed'')"
  using ex_read_failure_run
  by (simp add: ex_read_failure_env_def ex_tick_def)

section \<open>The report line\<close>

lemma DestMACAddress_keeps:
  "DestMACAddress s start sr ticks w = Some (res, w1, r1) \<Longrightarrow>
   stdout w1 = stdout w \<and> opened w1 = opened w \<and> closed w1 = closed w \<and> wait w1 = wait w"
  by (cases sr)
     (auto simp: DestMACAddress_def SendPacket_def Let_def split: option.splits)

lemma probe_loop_open_origin:
  "probe_loop nf fr (start, sent, w) tks = Some (Open tcp, w', rest) \<Longrightarrow>
   \<exists>tk \<in> set tks. \<exists>packet. rx tk = Inr packet \<and> is_reply nf packet \<and> tcpLayer packet = Some tcp"
proof (induction tks arbitrary: start sent w)
  case Nil
  then show ?case by simp
next
  case (Cons tk tks)
  from Cons.prems show ?case
  proof (cases rule: probe_loop_ConsE)
    case (closed s1 b1)
    then show ?thesis by simp
  next
    case (opened s1 b1 packet)
    then show ?thesis by (auto simp: is_reply_iff)
  next
    case (skipped s1 b1 w1)
    from Cons.IH [OF skipped(4)] show ?thesis by auto
  qed
qed

lemma report_returns:
  "read_banner d = Some (Returns data) \<Longrightarrow>
   report s tcp d w = Some (Returns None, w\<lparr>stdout := stdout w @ [report_line s tcp data]\<rparr>)"
  by (simp add: report_def)

lemma report_panics:
  "report s tcp d w = Some (Panics, w') \<Longrightarrow> w' = w"
  by (auto simp: report_def split: option.splits completion.splits)

lemma scan_open:
  assumes "scan_verdict s ev w = Some (Open tcp)"
  obtains hwaddr w1 r1 w2 r2 where
    "DestMACAddress s (arp_now ev) (arp_send ev) (arp_ticks ev) w = Some (Inr hwaddr, w1, r1)"
    "probe_loop (NewFlow EndpointIPv4 (DestIP s) (SourceIP s)) (syn_frame s hwaddr)
       (probe_now ev, False, w1) (probe_ticks ev) = Some (Open tcp, w2, r2)"
    "ScanAddress s ev w = report s tcp (dial ev) w2"
  using assms
  by (auto simp: scan_verdict_def ScanAddress_def Let_def
           split: option.splits sum.splits prod.splits)

lemma scan_not_open:
  assumes "ScanAddress s ev w = Some (c, w')" and "\<forall>tcp. scan_verdict s ev w \<noteq> Some (Open tcp)"
  shows "filter is_report (stdout w') = filter is_report (stdout w)"
proof (cases "DestMACAddress s (arp_now ev) (arp_send ev) (arp_ticks ev) w")
  case None
  with assms(1) show ?thesis by (simp add: ScanAddress_def)
next
  case (Some a)
  obtain res w1 r1 where a: "a = (res, w1, r1)" by (cases a)
  have k: "stdout w1 = stdout w" using DestMACAddress_keeps [of s _ _ _ w res w1 r1] Some a by simp
  show ?thesis
  proof (cases res)
    case (Inl err)
    with assms(1) Some a k show ?thesis by (simp add: ScanAddress_def)
  next
    case (Inr hwaddr)
    let ?p = "probe_loop (NewFlow EndpointIPv4 (DestIP s) (SourceIP s)) (syn_frame s hwaddr)
       (probe_now ev, False, w1) (probe_ticks ev)"
    show ?thesis
    proof (cases ?p)
      case None
      with assms(1) Some a Inr show ?thesis by (simp add: ScanAddress_def Let_def)
    next
      case p: (Some b)
      obtain v w2 r2 where b: "b = (v, w2, r2)" by (cases b)
      from assms(2) Some a Inr p b have "v = Closed"
        by (cases v) (simp_all add: scan_verdict_def)
      with assms(1) Some a Inr p b have "w' = w2" by (simp add: ScanAddress_def Let_def)
      with probe_loop_quiet [of _ _ _ False w1 _ v w2 r2] p b k show ?thesis by simp
    qed
  qed
qed

text \<open>
  C3 as amended: a scan whose probe reaches \<open>Open\<close> and whose banner read returns prints
  exactly one report line; its arguments are the target address, the source port of the TCP
  layer of the captured reply (the layer whose destination port is 63323), and the banner
  or the marker. A scan that ends without reaching \<open>Open\<close> prints no report line.
\<close>

theorem report_line_for_open_targets:
  "(scan_verdict s ev w = Some (Open tcp) \<and> read_banner (dial ev) = Some (Returns data) \<longrightarrow>
      (\<exists>w'. ScanAddress s ev w = Some (Returns None, w') \<and>
            filter is_report (stdout w') =
              filter is_report (stdout w) @
              [(report_format,
                [AString (IP_String (DestIP s)), AUint16 (SrcPort tcp), AString data])]) \<and>
      (\<exists>tk \<in> set (probe_ticks ev). \<exists>packet.
          rx tk = Inr packet \<and> tcpLayer packet = Some tcp \<and> DstPort tcp = 63323)) \<and>
   (ScanAddress s ev w = Some (c, w') \<and> (\<forall>tcp. scan_verdict s ev w \<noteq> Some (Open tcp)) \<longrightarrow>
      filter is_report (stdout w') = filter is_report (stdout w))"
proof (intro conjI impI)
  assume h: "scan_verdict s ev w = Some (Open tcp) \<and> read_banner (dial ev) = Some (Returns data)"
  from h obtain hwaddr w1 r1 w2 r2 where
    a: "DestMACAddress s (arp_now ev) (arp_send ev) (arp_ticks ev) w = Some (Inr hwaddr, w1, r1)" and
    p: "probe_loop (NewFlow EndpointIPv4 (DestIP s) (SourceIP s)) (syn_frame s hwaddr)
          (probe_now ev, False, w1) (probe_ticks ev) = Some (Open tcp, w2, r2)" and
    e: "ScanAddress s ev w = report s tcp (dial ev) w2"
    by (auto elim: scan_open)
  have "filter is_report (stdout w2) = filter is_report (stdout w)"
    using probe_loop_quiet [OF p] DestMACAddress_keeps [OF a] by simp
  then show "\<exists>w'. ScanAddress s ev w = Some (Returns None, w') \<and>
            filter is_report (stdout w') =
              filter is_report (stdout w) @
              [(report_format,
                [AString (IP_String (DestIP s)), AUint16 (SrcPort tcp), AString data])]"
    using e h report_returns [of "dial ev" data s tcp w2]
    by (simp add: report_line_def is_report_def)
  from probe_loop_open_origin [OF p]
  show "\<exists>tk \<in> set (probe_ticks ev). \<exists>packet.
          rx tk = Inr packet \<and> tcpLayer packet = Some tcp \<and> DstPort tcp = 63323"
    by (fastforce simp: is_reply_iff)
next
  assume "ScanAddress s ev w = Some (c, w') \<and> (\<forall>tcp. scan_verdict s ev w \<noteq> Some (Open tcp))"
  then show "filter is_report (stdout w') = filter is_report (stdout w)"
    using scan_not_open by blast
qed

lemmas ex_defs =
  ScanAddress_def scan_verdict_def DestMACAddress_def SendPacket_def Let_def
  ex_banner_env_def ex_silent_env_def ex_scanner_def ex_world_def ex_arp_reply_def IP_Equal_def
  Second_def ex_tick_def send_once_def ex_synack_def is_reply_def NewFlow_def report_def
  read_banner_def ReadString_def Trim_def report_line_def IP_String_def dec.simps

lemma ex_banner_run:
  "ScanAddress ex_scanner ex_banner_env ex_world
     = Some (Returns None,
             ex_world\<lparr>stdout := [(report_format,
                                   [AString ''10.0.0.5'', AUint16 22,
                                    AString ''SSH-2.0-OpenSSH''])],
                       written := [(arp_request ex_scanner [10, 0, 0, 5], None),
                                   (syn_frame ex_scanner [2, 0, 0, 0, 0, 5], None)]\<rparr>)"
  by (simp add: ex_defs)

lemma ex_report_text:
  "Sprintf report_format [AString ''10.0.0.5'', AUint16 22, AString ''SSH-2.0-OpenSSH'']
     = Some ''10.0.0.5shScanner:22,SSH-2.0-OpenSSHshScanner\<newline>''"
  by (simp add: report_format_def dec.simps)

theorem report_line_for_open_targets_witness:
  "(\<exists>w'. ScanAddress ex_scanner ex_banner_env ex_world = Some (Returns None, w') \<and>
         filter is_report (stdout w') =
           filter is_report (stdout ex_world) @
           [(report_format, [AString ''10.0.0.5'', AUint16 22, AString ''SSH-2.0-OpenSSH''])]) \<and>
   filter is_report
     (stdout (ex_world\<lparr>written := [(arp_request ex_scanner [10, 0, 0, 5], None),
                                    (syn_frame ex_scanner [2, 0, 0, 0, 0, 5], None)]\<rparr>))
     = filter is_report (stdout ex_world)"
proof -
  have v: "scan_verdict ex_scanner ex_banner_env ex_world
             = Some (Open \<lparr>SrcPort = 22, DstPort = 63323, SYN = True, ACK = True\<rparr>)"
    by (simp add: ex_defs)
  have b: "read_banner (dial ex_banner_env) = Some (Returns ''SSH-2.0-OpenSSH'')"
    by (simp add: ex_defs)
  have ip: "IP_String (DestIP ex_scanner) = ''10.0.0.5''" by (simp add: ex_defs)
  have s: "ScanAddress ex_scanner ex_silent_env ex_world
     = Some (Returns None,
             ex_world\<lparr>written := [(arp_request ex_scanner [10, 0, 0, 5], None),
                                    (syn_frame ex_scanner [2, 0, 0, 0, 0, 5], None)]\<rparr>)"
    by (simp add: ex_defs)
  have n: "\<forall>tcp. scan_verdict ex_scanner ex_silent_env ex_world \<noteq> Some (Open tcp)"
    by (simp add: ex_defs)
  show ?thesis
    using report_line_for_open_targets
            [of ex_scanner ex_banner_env ex_world
                "\<lparr>SrcPort = 22, DstPort = 63323, SYN = True, ACK = True\<rparr>" "''SSH-2.0-OpenSSH''"]
          report_line_for_open_targets
            [of ex_scanner ex_silent_env ex_world _ _ "Returns None"
                "ex_world\<lparr>written := [(arp_request ex_scanner [10, 0, 0, 5], None),
                                       (syn_frame ex_scanner [2, 0, 0, 0, 0, 5], None)]\<rparr>"]
          v b ip s n
    by simp
qed

text \<open>
  C3 as stated fails: for a reply from port 22 the number in the report line is 22, not
  63323.
\<close>

theorem report_source_port_counterexample:
  "ScanAddress ex_scanner ex_banner_env ex_world
     = Some (Returns None,
             ex_world\<lparr>stdout := [(report_format,
                                   [AString ''10.0.0.5'', AUint16 22,
                                    AString ''SSH-2.0-OpenSSH''])],
                       written := [(arp_request ex_scanner [10, 0, 0, 5], None),
                                   (syn_frame ex_scanner [2, 0, 0, 0, 0, 5], None)]\<rparr>) \<and>
   Sprintf report_format [AString ''10.0.0.5'', AUint16 22, AString ''SSH-2.0-OpenSSH'']
     = Some ''10.0.0.5shScanner:22,SSH-2.0-OpenSSHshScanner\<newline>'' \<and>
   Sprintf report_format [AString ''10.0.0.5'', AUint16 22, AString ''SSH-2.0-OpenSSH'']
     \<noteq> Some ''10.0.0.5:63323,SSH-2.0-OpenSSH\<newline>''"
  using ex_banner_run ex_report_text by simp

section \<open>One target: the handle and the panic\<close>

text \<open>
  C4: the capture handle is to be closed once on every way out of a scan. \<open>Close\<close> runs
  only after \<open>ScanAddress\<close> returned nil (second run below: opened once, closed once).
  When the resolution gets no reply, \<open>ScanAddress\<close> returns the error, the function returns
  false at line 130 and the handle that \<open>create\<close> opened is never closed (first run).
\<close>

theorem handle_left_open_on_error:
  "scan_target [10, 0, 0, 5] (Inr (Interface ex_scanner, None, [10, 0, 0, 2])) None
      ex_unresolved_env \<lparr>stdout = [], written = [], opened = 0, closed = 0, wait = 1\<rparr>
     = Some (Returns False,
             \<lparr>stdout = [], written = [(arp_request ex_scanner [10, 0, 0, 5], None)],
              opened = 1, closed = 0, wait = 0\<rparr>) \<and>
   scan_target [10, 0, 0, 5] (Inr (Interface ex_scanner, None, [10, 0, 0, 2])) None
      ex_banner_env \<lparr>stdout = [], written = [], opened = 0, closed = 0, wait = 1\<rparr>
     = Some (Returns True,
             \<lparr>stdout = [(report_format,
                         [AString ''10.0.0.5'', AUint16 22, AString ''SSH-2.0-OpenSSH''])],
              written = [(arp_request ex_scanner [10, 0, 0, 5], None),
                         (syn_frame ex_scanner [2, 0, 0, 0, 0, 5], None)],
              opened = 1, closed = 1, wait = 0\<rparr>)"
  by (simp add: scan_target_def create_def Close_def ex_defs ex_unresolved_env_def)

text \<open>
  C8: a failed route lookup ends the scan of that target with a line for the user and
  false. A failed dial after the SYN+ACK does not: the error of \<open>net.Dial\<close> is dropped,
  the read on the nil connection panics, nothing is printed, and the panic ends the
  process with all its other scans.
\<close>

theorem dial_failure_panics:
  "scan_target ip (Inl err) openlive ev w
     = Some (Returns False,
             w\<lparr>stdout := stdout w @
                  [(''Unable to create scanner for %v: %v\<newline>'', [AIP ip, AError err])],
               wait := wait w - 1\<rparr>) \<and>
   scan_target [10, 0, 0, 5] (Inr (Interface ex_scanner, None, [10, 0, 0, 2])) None
      ex_refused_env \<lparr>stdout = [], written = [], opened = 0, closed = 0, wait = 1\<rparr>
     = Some (Panics,
             \<lparr>stdout = [],
              written = [(arp_request ex_scanner [10, 0, 0, 5], None),
                         (syn_frame ex_scanner [2, 0, 0, 0, 0, 5], None)],
              opened = 1, closed = 0, wait = 1\<rparr>)"
  by (simp add: scan_target_def create_def ex_defs ex_refused_env_def)

section \<open>The arguments after the expansion\<close>

text \<open>
  C9: every range is to be replaced by exactly its addresses. The result of \<open>remove\<close> is
  dropped and its index counts the ranges seen, not the place of the range. For the two
  ranges 10.0.0.0/31 and 10.0.1.0/31 the first call removes the first range and doubles
  the last address, the second call removes index 1, which by then holds 10.0.0.0: that
  address is never scanned, 10.0.0.1 and 10.0.1.1 are scanned twice, and the second range
  stays among the arguments. For the single range 10.0.0.0/30 the last address is there
  twice.
\<close>

theorem cidr_arguments_lost:
  "expand_args 2 [''10.0.0.0/31'', ''10.0.1.0/31'']
     = Some (Returns [''10.0.1.0/31'', ''10.0.0.1'', ''10.0.0.1'', ''10.0.1.0'', ''10.0.1.1'',
                      ''10.0.1.1'']) \<and>
   targets [''10.0.1.0/31'', ''10.0.0.1'', ''10.0.0.1'', ''10.0.1.0'', ''10.0.1.1'', ''10.0.1.1'']
     = [[10, 0, 0, 1], [10, 0, 0, 1], [10, 0, 1, 0], [10, 0, 1, 1], [10, 0, 1, 1]] \<and>
   expand_args 1 [''10.0.0.0/30'']
     = Some (Returns [''10.0.0.0'', ''10.0.0.1'', ''10.0.0.2'', ''10.0.0.3'', ''10.0.0.3''])"
  by code_simp

section \<open>The banner field of the printed line\<close>

text \<open>
  C7: the banner field of the report is to be the first line of the stream without its
  line terminator, or the marker \<open>Unable to get banner\<close>. The banner is read and handed to
  \<open>Printf\<close> as the claim says, and \<open>report\<close> returns nil; but the format of line 187 is
  \<open>%sshScanner:%d,%sshScanner\<close>, so the line that is printed for the stream
  \<open>SSH-2.0-OpenSSH\<close> has the banner field \<open>SSH-2.0-OpenSSHshScanner\<close>, and for a stream that
  closes at once \<open>Unable to get bannershScanner\<close>.
\<close>

theorem banner_field_has_suffix:
  "report ex_scanner \<lparr>SrcPort = 22, DstPort = 63323, SYN = True, ACK = True\<rparr>
      (Some \<lparr>incoming = ''SSH-2.0-OpenSSH\<newline>'', ending = None\<rparr>) ex_world
     = Some (Returns None,
             ex_world\<lparr>stdout := [(''%sshScanner:%d,%sshScanner\<newline>'',
                [AString ''10.0.0.5'', AUint16 22, AString ''SSH-2.0-OpenSSH''])]\<rparr>) \<and>
   Sprintf ''%sshScanner:%d,%sshScanner\<newline>''
      [AString ''10.0.0.5'', AUint16 22, AString ''SSH-2.0-OpenSSH'']
     = Some ''10.0.0.5shScanner:22,SSH-2.0-OpenSSHshScanner\<newline>'' \<and>
   banner_field ''10.0.0.5shScanner:22,SSH-2.0-OpenSSHshScanner\<newline>''
     = ''SSH-2.0-OpenSSHshScanner'' \<and>
   report ex_scanner \<lparr>SrcPort = 22, DstPort = 63323, SYN = True, ACK = True\<rparr>
      (Some \<lparr>incoming = [], ending = Some EOF\<rparr>) ex_world
     = Some (Returns None,
             ex_world\<lparr>stdout := [(''%sshScanner:%d,%sshScanner\<newline>'',
                [AString ''10.0.0.5'', AUint16 22, AString ''Unable to get banner''])]\<rparr>) \<and>
   Sprintf ''%sshScanner:%d,%sshScanner\<newline>''
      [AString ''10.0.0.5'', AUint16 22, AString ''Unable to get banner'']
     = Some ''10.0.0.5shScanner:22,Unable to get bannershScanner\<newline>'' \<and>
   banner_field ''10.0.0.5shScanner:22,Unable to get bannershScanner\<newline>''
     = ''Unable to get bannershScanner''"
  by (simp add: report_def read_banner_def ReadString_def Trim_def report_line_def
        report_format_def ex_scanner_def ex_world_def IP_String_def dec.simps banner_field_def)

end
